theory Spec2Isabelle
  imports Main "HOL-Library.Sublist" "HOL-Library.Word" "HOL-Library.Code_Target_Nat"
begin

section \<open>JavaScript strings and the built-ins the submission function relies on\<close>

text \<open>
  A JavaScript string is modelled as a list of 8-bit characters, read as the code units
  U+0000 .. U+00FF. Code units above U+00FF are outside the model. The built-ins
  \<^verbatim>\<open>String.prototype.trim\<close>, \<^verbatim>\<open>toLowerCase\<close>, \<^verbatim>\<open>split\<close>,
  \<^verbatim>\<open>startsWith\<close>, \<^verbatim>\<open>endsWith\<close> and \<^verbatim>\<open>includes\<close> are
  modelled on that range; \<^verbatim>\<open>startsWith\<close> is \<^const>\<open>prefix\<close>,
  \<^verbatim>\<open>endsWith\<close> is \<^const>\<open>suffix\<close>.
\<close>

type_synonym bytes = "8 word list"

definition js_whitespace :: "char \<Rightarrow> bool" where
  "js_whitespace c \<longleftrightarrow>
     c \<in> set [CHR 0x09, CHR 0x0A, CHR 0x0B, CHR 0x0C, CHR 0x0D, CHR '' '', CHR 0xA0]"

definition trim :: "string \<Rightarrow> string" where
  "trim s = rev (dropWhile js_whitespace (rev (dropWhile js_whitespace s)))"

definition lowerChar :: "char \<Rightarrow> char" where
  "lowerChar c =
     (let n = (of_char c :: nat) in
      if (65 \<le> n \<and> n \<le> 90) \<or> (192 \<le> n \<and> n \<le> 222 \<and> n \<noteq> 215)
      then char_of (n + 32) else c)"

definition toLowerCase :: "string \<Rightarrow> string" where
  "toLowerCase s = map lowerChar s"

text \<open>\<^verbatim>\<open>s.split(c)\<close> for a one-character separator: never the empty array.\<close>

fun split_on :: "char \<Rightarrow> string \<Rightarrow> string list" where
  "split_on c [] = [[]]"
| "split_on c (x # xs) =
     (if x = c then [] # split_on c xs
      else (case split_on c xs of [] \<Rightarrow> [[x]] | p # ps \<Rightarrow> (x # p) # ps))"

text \<open>\<^verbatim>\<open>s.includes(t)\<close>: \<open>t\<close> occurs in \<open>s\<close> as a contiguous substring.\<close>

fun includes_str :: "string \<Rightarrow> string \<Rightarrow> bool" where
  "includes_str [] t = (t = [])"
| "includes_str (x # xs) t = (prefix t (x # xs) \<or> includes_str xs t)"

definition is_digit :: "char \<Rightarrow> bool" where
  "is_digit c \<longleftrightarrow> (let n = (of_char c :: nat) in 48 \<le> n \<and> n \<le> 57)"

definition is_hex :: "char \<Rightarrow> bool" where
  "is_hex c \<longleftrightarrow>
     (let n = (of_char c :: nat) in
      (48 \<le> n \<and> n \<le> 57) \<or> (65 \<le> n \<and> n \<le> 70) \<or> (97 \<le> n \<and> n \<le> 102))"

definition is_alpha :: "char \<Rightarrow> bool" where
  "is_alpha c \<longleftrightarrow>
     (let n = (of_char c :: nat) in (65 \<le> n \<and> n \<le> 90) \<or> (97 \<le> n \<and> n \<le> 122))"

text \<open>The value of a string of decimal digits, most significant digit first.\<close>

definition decimal :: "string \<Rightarrow> nat" where
  "decimal s = foldl (\<lambda>acc c. 10 * acc + (of_char c - 48)) 0 s"

text \<open>
  \<^verbatim>\<open>Number(s)\<close> on the strings that matter here: surrounding white space is
  dropped, the empty string is 0, an optionally signed run of decimal digits is its value,
  and \<open>None\<close> stands for \<^verbatim>\<open>NaN\<close>. The real conversion also reads fractions,
  exponents, \<^verbatim>\<open>0x\<close>/\<^verbatim>\<open>0o\<close>/\<^verbatim>\<open>0b\<close> literals and
  \<^verbatim>\<open>Infinity\<close>; those are not modelled and come out as \<open>None\<close>, so the results
  below that go through \<open>jsNumber\<close> are stated for decimal input.
\<close>

definition jsNumber :: "string \<Rightarrow> int option" where
  "jsNumber s =
     (let t = trim s in
      if t = [] then Some 0
      else if hd t = CHR ''-'' \<and> tl t \<noteq> [] \<and> list_all is_digit (tl t)
        then Some (- int (decimal (tl t)))
      else if hd t = CHR ''+'' \<and> tl t \<noteq> [] \<and> list_all is_digit (tl t)
        then Some (int (decimal (tl t)))
      else if list_all is_digit t then Some (int (decimal t))
      else None)"

section \<open>Constants and errors of the submission function\<close>

definition MAX_IMAGE_BYTES :: nat where
  "MAX_IMAGE_BYTES = 8 * 1024 * 1024"

definition MAX_REDIRECTS :: nat where
  "MAX_REDIRECTS = 4"

definition ALLOWED_IMAGE_MIME_TYPES :: "string list" where
  "ALLOWED_IMAGE_MIME_TYPES =
     [''image/jpeg'', ''image/png'', ''image/webp'', ''image/gif'', ''image/avif'']"

text \<open>
  \<^verbatim>\<open>class SubmissionError extends Error\<close> carries a message and a status code, 400
  unless the constructor is given another. Every other exception (a \<^verbatim>\<open>TypeError\<close>,
  a rejected network promise) is \<open>OtherError\<close>.
\<close>

datatype exn = SubmissionError string nat | OtherError

definition submissionError :: "string \<Rightarrow> exn" where
  "submissionError message = SubmissionError message 400"

definition extensionFromMime :: "string \<Rightarrow> string" where
  "extensionFromMime mimeType =
     (case map_of [(''image/jpeg'', ''jpg''), (''image/png'', ''png''),
                   (''image/webp'', ''webp''), (''image/gif'', ''gif''),
                   (''image/avif'', ''avif'')] (toLowerCase mimeType) of
        None \<Rightarrow> ''jpg''
      | Some ext \<Rightarrow> ext)"

text \<open>\<^verbatim>\<open>path.basename\<close> of \<^verbatim>\<open>node:path\<close> on POSIX, without a suffix argument.\<close>

definition basename :: "string \<Rightarrow> string" where
  "basename p =
     (let stripped = dropWhile (\<lambda>c. c = CHR ''/'') (rev p)
      in rev (takeWhile (\<lambda>c. c \<noteq> CHR ''/'') stripped))"

definition safeFilename :: "string \<Rightarrow> string" where
  "safeFilename filename =
     (let base = basename (if filename = [] then ''cat-image'' else filename);
          normalized = map (\<lambda>c. if is_alpha c \<or> is_digit c \<or> c \<in> set ''._-'' then c
                                   else CHR ''_'') base
      in if normalized = [] then ''cat-image'' else normalized)"

subsection \<open>The MIME policy gate\<close>

definition sanitizeImageMimeType :: "string \<Rightarrow> exn + string" where
  "sanitizeImageMimeType mimeType =
     (let normalized = toLowerCase (trim (hd (split_on CHR '';'' mimeType))) in
      if normalized \<notin> set ALLOWED_IMAGE_MIME_TYPES
      then Inl (submissionError ''Only JPEG, PNG, WEBP, GIF, and AVIF images are allowed.'')
      else Inr normalized)"

subsection \<open>Address classification\<close>

text \<open>
  \<^verbatim>\<open>net.isIP\<close> of \<^verbatim>\<open>node:net\<close>, after the grammar Node documents and
  implements: a dotted quad of decimal segments 0..255 without leading zeros is version 4;
  up to eight colon-separated groups of one to four hexadecimal digits, with at most one
  \<^verbatim>\<open>::\<close>, an optional dotted quad in place of the last two groups and an optional
  \<^verbatim>\<open>%zone\<close>, is version 6; anything else is 0.
\<close>

definition v4Seg :: "string \<Rightarrow> bool" where
  "v4Seg p \<longleftrightarrow>
     p \<noteq> [] \<and> length p \<le> 3 \<and> list_all is_digit p \<and>
     (length p = 1 \<or> hd p \<noteq> CHR ''0'') \<and> decimal p \<le> 255"

definition isIPv4 :: "string \<Rightarrow> bool" where
  "isIPv4 s \<longleftrightarrow> (let parts = split_on CHR ''.'' s in length parts = 4 \<and> list_all v4Seg parts)"

definition v6Seg :: "string \<Rightarrow> bool" where
  "v6Seg p \<longleftrightarrow> p \<noteq> [] \<and> length p \<le> 4 \<and> list_all is_hex p"

text \<open>The text before and after the first \<^verbatim>\<open>::\<close>, when there is one.\<close>

fun split_dcolon :: "string \<Rightarrow> (string \<times> string) option" where
  "split_dcolon (a # b # cs) =
     (if a = CHR '':'' \<and> b = CHR '':'' then Some ([], cs)
      else map_option (\<lambda>(l, r). (a # l, r)) (split_dcolon (b # cs)))"
| "split_dcolon _ = None"

definition v6Groups :: "string \<Rightarrow> string list" where
  "v6Groups t = (if t = [] then [] else split_on CHR '':'' t)"

text \<open>
  The number of 16-bit groups a run of groups stands for, or \<open>None\<close> when it is not
  well formed; only the last group may be a dotted quad, which stands for two.
\<close>

definition v6Count :: "bool \<Rightarrow> string list \<Rightarrow> nat option" where
  "v6Count quad_allowed gs =
     (if gs = [] then Some 0
      else if \<not> list_all v6Seg (butlast gs) then None
      else if v6Seg (last gs) then Some (length gs)
      else if quad_allowed \<and> isIPv4 (last gs) then Some (length gs + 1)
      else None)"

definition v6Zone :: "string \<Rightarrow> bool" where
  "v6Zone z \<longleftrightarrow>
     z \<noteq> [] \<and> list_all (\<lambda>c. is_alpha c \<or> is_digit c \<or> c \<in> set ''-.:'') z"

definition isIPv6 :: "string \<Rightarrow> bool" where
  "isIPv6 s \<longleftrightarrow>
     (let addr = takeWhile (\<lambda>c. c \<noteq> CHR ''%'') s;
          rest = dropWhile (\<lambda>c. c \<noteq> CHR ''%'') s
      in (rest = [] \<or> v6Zone (tl rest)) \<and>
         (case split_dcolon addr of
            None \<Rightarrow> v6Count True (v6Groups addr) = Some 8 \<and> addr \<noteq> []
          | Some (l, r) \<Rightarrow>
              (case (v6Count False (v6Groups l), v6Count True (v6Groups r)) of
                 (Some m, Some n) \<Rightarrow> m + n \<le> 7
               | _ \<Rightarrow> False)))"

definition isIP :: "string \<Rightarrow> nat" where
  "isIP s = (if isIPv4 s then 4 else if isIPv6 s then 6 else 0)"

definition isPrivateIPv4 :: "string \<Rightarrow> bool" where
  "isPrivateIPv4 ip =
     (case map jsNumber (split_on CHR ''.'' ip) of
        [Some p0, Some p1, Some p2, Some p3] \<Rightarrow>
          if p0 = 10 then True
          else if p0 = 127 then True
          else if p0 = 169 \<and> p1 = 254 then True
          else if p0 = 172 \<and> p1 \<ge> 16 \<and> p1 \<le> 31 then True
          else if p0 = 192 \<and> p1 = 168 then True
          else if p0 = 0 then True
          else False
      | _ \<Rightarrow> False)"

definition isPrivateIPv6 :: "string \<Rightarrow> bool" where
  "isPrivateIPv6 ip =
     (let v = toLowerCase ip in
      v = ''::1'' \<or> prefix ''fc'' v \<or> prefix ''fd'' v \<or> prefix ''fe80:'' v)"

definition isPrivateIpAddress :: "string \<Rightarrow> bool" where
  "isPrivateIpAddress ip =
     (let version = isIP ip in
      if version = 4 then isPrivateIPv4 ip
      else if version = 6 then isPrivateIPv6 ip
      else True)"

section \<open>The outside world\<close>

text \<open>
  Everything the function reaches through a built-in or the network is a field of one
  record, the world it runs in: the WHATWG \<^verbatim>\<open>URL\<close> parser, DNS, the remote
  origin, Cloudinary, Airtable and \<^verbatim>\<open>process.env\<close>. Nothing is assumed about them.
  DNS and the origin are asked once per redirect hop, so their answers take the hop number:
  the same name or URL may be answered differently at different hops.
\<close>

record url =
  protocol :: string
  hostname :: string
  pathname :: string
  href :: string

text \<open>
  One result of \<^verbatim>\<open>reader.read()\<close>: \<^verbatim>\<open>{done: true}\<close>, a chunk, or a rejected
  promise. A body without \<^verbatim>\<open>getReader\<close> is read whole by
  \<^verbatim>\<open>response.arrayBuffer()\<close>, which may reject too (\<open>None\<close>).
\<close>

datatype chunk_read = ReadDone | ReadChunk bytes | ReadRejects

datatype body_stream = NoReader "bytes option" | Reader "nat \<Rightarrow> chunk_read"

record response =
  status :: nat
  location :: "string option"
  contentLength :: "string option"
  contentType :: "string option"
  body :: body_stream

datatype fetch_outcome = FetchAborted | FetchFailed | FetchResponse response

record image =
  buffer :: bytes
  mimeType :: string
  filename :: string

record cloudinary_config =
  cloudName :: string
  apiKey :: string
  apiSecret :: string
  folder :: string

text \<open>
  Cloudinary's answer to the signed upload: the request fails, the response is not
  \<^verbatim>\<open>ok\<close>, or it is \<^verbatim>\<open>ok\<close> with a body that is not JSON (\<open>None\<close>) or is
  JSON with or without a \<^verbatim>\<open>secure_url\<close>. The SHA-1 signature and the timestamp are
  part of the request and play no role in what the function does with the answer.
\<close>

datatype cloudinary_reply =
  CloudinaryUnreachable | CloudinaryNotOk | CloudinaryOk "string option option"

datatype airtable_reply = AirtableUnreachable | AirtableResponse nat string

record payload =
  Cat_Name :: string
  Human_Name :: string
  Developer_URL :: string
  Photo_URL :: string
  Story :: string
  Status :: string

record process_env =
  AIRTABLE_TOKEN :: "string option"
  AIRTABLE_BASE_ID :: "string option"
  AIRTABLE_TABLE_NAME :: "string option"
  AIRTABLE_VIEW :: "string option"
  CLOUDINARY_CLOUD_NAME :: "string option"
  CLOUDINARY_API_KEY :: "string option"
  CLOUDINARY_API_SECRET :: "string option"
  CLOUDINARY_FOLDER :: "string option"

record world =
  parseURL :: "string \<Rightarrow> url option"
  resolveURL :: "string \<Rightarrow> string \<Rightarrow> string option"
  dnsLookup :: "nat \<Rightarrow> string \<Rightarrow> string list option"
  httpGet :: "nat \<Rightarrow> string \<Rightarrow> fetch_outcome"
  cloudinaryPost :: "image \<Rightarrow> cloudinary_config \<Rightarrow> cloudinary_reply"
  airtablePost :: "payload \<Rightarrow> airtable_reply"
  airtableErrorOf :: "string \<Rightarrow> string option"
  processEnv :: process_env

text \<open>The calls the function makes, in the order it makes them.\<close>

datatype call =
  AssertPublicUrl string
| HttpGet string
| ReaderCancel
| CloudinaryUpload image cloudinary_config
| AirtablePost payload

section \<open>The host-safety validator\<close>

definition unsafeHost :: exn where
  "unsafeHost = submissionError ''photoUrl cannot target local/internal hosts.''"

definition unresolvableHost :: exn where
  "unresolvableHost = submissionError ''photoUrl host could not be resolved.''"

definition assertPublicUrl :: "world \<Rightarrow> nat \<Rightarrow> string \<Rightarrow> exn + string" where
  "assertPublicUrl w hop urlString =
     (case parseURL w urlString of
        None \<Rightarrow> Inl (submissionError ''photoUrl must be a valid absolute URL.'')
      | Some parsedUrl \<Rightarrow>
          if protocol parsedUrl \<notin> set [''https:'', ''http:'']
          then Inl (submissionError ''photoUrl must start with http:// or https://.'')
          else
            let host = toLowerCase (hostname parsedUrl) in
            if host = ''localhost'' \<or> suffix ''.local'' host \<or> suffix ''.localhost'' host
            then Inl unsafeHost
            else if isIP host \<noteq> 0
            then (if isPrivateIpAddress host then Inl unsafeHost
                  else Inr (href parsedUrl))
            else
              (case dnsLookup w hop host of
                 None \<Rightarrow> Inl unresolvableHost
               | Some records \<Rightarrow>
                   if records = [] then Inl unresolvableHost
                   else if list_ex isPrivateIpAddress records then Inl unsafeHost
                   else Inr (href parsedUrl)))"

section \<open>The size-limited reader\<close>

definition imageTooLarge :: exn where
  "imageTooLarge = SubmissionError ''Image is too large (max 8MB).'' 413"

record read_outcome =
  outcome :: "exn + bytes"
  reads :: nat
  cancelled :: bool

text \<open>
  \<^verbatim>\<open>Buffer.concat(list, totalLength)\<close>: the chunks in order, cut or zero-filled to
  \<open>totalLength\<close> bytes.
\<close>

definition bufferConcat :: "bytes list \<Rightarrow> nat \<Rightarrow> bytes" where
  "bufferConcat chunks totalLength = take totalLength (concat chunks @ replicate totalLength 0)"

text \<open>
  The \<^verbatim>\<open>while (true)\<close> loop of \<open>readResponseWithLimit\<close>, entered with \<open>i\<close> reads
  done. Nothing bounds the number of chunks, so the loop is a partial function: \<open>None\<close>
  is a run that never returns. \<^verbatim>\<open>reader.cancel()\<close> is taken to resolve.
\<close>

partial_function (option) readLoop ::
  "(nat \<Rightarrow> chunk_read) \<Rightarrow> nat \<Rightarrow> nat \<Rightarrow> bytes list \<Rightarrow> nat \<Rightarrow> read_outcome option"
where
  "readLoop rd maxBytes i chunks tot =
     (case rd i of
        ReadRejects \<Rightarrow>
          Some \<lparr>outcome = Inl OtherError, reads = Suc i, cancelled = False\<rparr>
      | ReadDone \<Rightarrow>
          Some \<lparr>outcome = Inr (bufferConcat chunks tot), reads = Suc i, cancelled = False\<rparr>
      | ReadChunk v \<Rightarrow>
          if tot + length v > maxBytes
          then Some \<lparr>outcome = Inl imageTooLarge, reads = Suc i, cancelled = True\<rparr>
          else readLoop rd maxBytes (Suc i) (chunks @ [v]) (tot + length v))"

declare readLoop.simps [code]

definition readResponseWithLimit :: "response \<Rightarrow> nat \<Rightarrow> read_outcome option" where
  "readResponseWithLimit r maxBytes =
     (case body r of
        NoReader None \<Rightarrow> Some \<lparr>outcome = Inl OtherError, reads = 0, cancelled = False\<rparr>
      | NoReader (Some fallbackBuffer) \<Rightarrow>
          if length fallbackBuffer > maxBytes
          then Some \<lparr>outcome = Inl imageTooLarge, reads = 0, cancelled = False\<rparr>
          else Some \<lparr>outcome = Inr fallbackBuffer, reads = 0, cancelled = False\<rparr>
      | Reader rd \<Rightarrow> readLoop rd maxBytes 0 [] 0)"

section \<open>The redirect-following fetcher\<close>

text \<open>A number in a template literal: its decimal digits.\<close>

fun showNat :: "nat \<Rightarrow> string" where
  "showNat n =
     (if n < 10 then [char_of (48 + n)] else showNat (n div 10) @ [char_of (48 + n mod 10)])"

definition getFilenameFromUrl :: "world \<Rightarrow> string \<Rightarrow> string \<Rightarrow> exn + string" where
  "getFilenameFromUrl w urlString mime =
     (case parseURL w urlString of
        None \<Rightarrow> Inl OtherError
      | Some parsed \<Rightarrow>
          let fromPath = safeFilename (basename (pathname parsed)) in
          if includes_str fromPath ''.'' then Inr fromPath
          else Inr (fromPath @ ''.'' @ extensionFromMime mime))"

text \<open>A field of a parsed body, as \<open>cleanText\<close> and the truthiness tests see it.\<close>

datatype field_value = Absent | Str string | NonStr bool string

fun truthy :: "field_value \<Rightarrow> bool" where
  "truthy Absent = False"
| "truthy (Str s) = (s \<noteq> [])"
| "truthy (NonStr t s) = t"

fun toString :: "field_value \<Rightarrow> string" where
  "toString Absent = []"
| "toString (Str s) = s"
| "toString (NonStr t s) = s"

definition cleanText :: "field_value \<Rightarrow> string" where
  "cleanText v = trim (if truthy v then toString v else [])"

definition logged :: "call list \<Rightarrow> (call list \<times> 'a) option \<Rightarrow> (call list \<times> 'a) option" where
  "logged cs r = map_option (\<lambda>(ds, x). (cs @ ds, x)) r"

text \<open>
  What follows the status checks of one hop, for a response that is \<^verbatim>\<open>ok\<close>: the
  declared length, the MIME gate, the bounded read and the file name.
\<close>

definition readImage :: "world \<Rightarrow> string \<Rightarrow> response \<Rightarrow> (call list \<times> (exn + image)) option" where
  "readImage w currentUrl r =
     (let declared = jsNumber (case contentLength r of None \<Rightarrow> ''0''
                               | Some h \<Rightarrow> if h = [] then ''0'' else h) in
      if (case declared of None \<Rightarrow> False | Some n \<Rightarrow> n > int MAX_IMAGE_BYTES)
      then Some ([], Inl imageTooLarge)
      else
        (case sanitizeImageMimeType (case contentType r of None \<Rightarrow> [] | Some t \<Rightarrow> t) of
           Inl e \<Rightarrow> Some ([], Inl e)
         | Inr mime \<Rightarrow>
             (case readResponseWithLimit r MAX_IMAGE_BYTES of
                None \<Rightarrow> None
              | Some ro \<Rightarrow>
                  let cs = (if cancelled ro then [ReaderCancel] else []) in
                  (case outcome ro of
                     Inl e \<Rightarrow> Some (cs, Inl e)
                   | Inr buf \<Rightarrow>
                       if buf = [] then Some (cs, Inl (submissionError ''Fetched image is empty.''))
                       else
                         (case getFilenameFromUrl w currentUrl mime of
                            Inl e \<Rightarrow> Some (cs, Inl e)
                          | Inr name \<Rightarrow>
                              Some (cs, Inr \<lparr>buffer = buf, mimeType = mime,
                                              filename = name\<rparr>))))))"

text \<open>
  The \<^verbatim>\<open>for\<close> loop of \<open>fetchImageFromUrl\<close>, entered with \<open>redirectCount\<close> and
  \<open>currentUrl\<close>.
\<close>

function fetchLoop :: "world \<Rightarrow> nat \<Rightarrow> string \<Rightarrow> (call list \<times> (exn + image)) option" where
  "fetchLoop w redirectCount currentUrl =
     (if redirectCount \<le> MAX_REDIRECTS then
        (case assertPublicUrl w redirectCount currentUrl of
           Inl e \<Rightarrow> Some ([AssertPublicUrl currentUrl], Inl e)
         | Inr validUrl \<Rightarrow>
             logged [AssertPublicUrl currentUrl, HttpGet validUrl]
               (case httpGet w redirectCount validUrl of
                  FetchAborted \<Rightarrow>
                    Some ([], Inl (submissionError ''Timed out while fetching photoUrl.''))
                | FetchFailed \<Rightarrow> Some ([], Inl (submissionError ''Could not fetch photoUrl.''))
                | FetchResponse r \<Rightarrow>
                    if status r \<ge> 300 \<and> status r < 400 then
                      (case location r of
                         None \<Rightarrow>
                           Some ([], Inl (submissionError ''photoUrl redirect is missing location.''))
                       | Some loc \<Rightarrow>
                           if loc = [] then
                             Some ([], Inl (submissionError ''photoUrl redirect is missing location.''))
                           else
                             (case resolveURL w loc validUrl of
                                None \<Rightarrow> Some ([], Inl OtherError)
                              | Some nextUrl \<Rightarrow> fetchLoop w (Suc redirectCount) nextUrl))
                    else if \<not> (status r \<ge> 200 \<and> status r \<le> 299) then
                      Some ([], Inl (submissionError
                        (''photoUrl returned HTTP '' @ showNat (status r) @ ''.'')))
                    else readImage w validUrl r))
      else Some ([], Inl (submissionError ''photoUrl has too many redirects.'')))"
  by pat_completeness auto
termination
  by (relation "measure (\<lambda>(w, redirectCount, currentUrl). Suc MAX_REDIRECTS - redirectCount)") auto

declare fetchLoop.simps [simp del]

definition fetchImageFromUrl :: "world \<Rightarrow> string \<Rightarrow> (call list \<times> (exn + image)) option" where
  "fetchImageFromUrl w urlString =
     (let currentUrl = cleanText (Str urlString) in
      if currentUrl = []
      then Some ([], Inl (submissionError ''photoUrl is required when no file is uploaded.''))
      else fetchLoop w 0 currentUrl)"

section \<open>Parsing the request\<close>

text \<open>
  The request as the function sees it. Decoding the body is the platform's work: the
  event carries what \<^verbatim>\<open>new Response(...).formData()\<close>, \<^verbatim>\<open>JSON.parse\<close> and
  \<^verbatim>\<open>URLSearchParams\<close> make of it (\<open>None\<close> where the parser throws), and
  \<open>parseBody\<close> picks one by the content type. A \<^verbatim>\<open>File\<close> has a name, a type and
  its bytes; its \<^verbatim>\<open>size\<close> is the number of bytes.
\<close>

record upload_file =
  fileName :: string
  fileType :: string
  fileContent :: bytes

datatype form_value = FormString string | FormFile upload_file

text \<open>
  The \<^verbatim>\<open>fields\<close> of a parsed body: an object whose properties are read by name, or
  the JSON value \<^verbatim>\<open>null\<close>, on which reading a property throws.
\<close>

datatype fields_value = NullFields | Fields "string \<Rightarrow> field_value"

record event =
  httpMethod :: string
  eventHeaders :: "string \<rightharpoonup> string"
  formData :: "(string \<times> form_value) list option"
  jsonBody :: "fields_value option"
  urlParams :: "(string \<times> string) list"

definition getHeader :: "event \<Rightarrow> string \<Rightarrow> string" where
  "getHeader ev header =
     (case eventHeaders ev header of
        Some v \<Rightarrow> if v \<noteq> [] then v
                  else (case eventHeaders ev (toLowerCase header) of
                          Some v' \<Rightarrow> v' | None \<Rightarrow> [])
      | None \<Rightarrow>
          (case eventHeaders ev (toLowerCase header) of Some v' \<Rightarrow> v' | None \<Rightarrow> []))"

text \<open>
  The loop over the entries of the form. The entry \<^verbatim>\<open>photoFile\<close> keeps the file's
  \<^verbatim>\<open>size\<close> beside the buffer; it is the buffer's length and is not read again.
\<close>

fun parseEntries ::
  "(string \<times> form_value) list \<Rightarrow> (string \<Rightarrow> field_value) \<Rightarrow> image option
     \<Rightarrow> exn + ((string \<Rightarrow> field_value) \<times> image option)"
where
  "parseEntries [] flds photoFile = Inr (flds, photoFile)"
| "parseEntries ((key, FormString v) # rest) flds photoFile =
     parseEntries rest (flds(key := Str v)) photoFile"
| "parseEntries ((key, FormFile f) # rest) flds photoFile =
     (if key \<noteq> ''photoFile'' \<or> length (fileContent f) = 0
      then parseEntries rest flds photoFile
      else if length (fileContent f) > MAX_IMAGE_BYTES
      then Inl (SubmissionError ''Uploaded image is too large (max 8MB).'' 413)
      else
        (case sanitizeImageMimeType (fileType f) of
           Inl e \<Rightarrow> Inl e
         | Inr mime \<Rightarrow>
             parseEntries rest flds
               (Some \<lparr>buffer = fileContent f, mimeType = mime,
                      filename = safeFilename
                        (if fileName f = [] then ''upload.'' @ extensionFromMime mime
                         else fileName f)\<rparr>)))"

definition parseBody :: "event \<Rightarrow> exn + (fields_value \<times> image option)" where
  "parseBody ev =
     (let ctype = getHeader ev ''content-type'' in
      if includes_str ctype ''multipart/form-data'' then
        (case formData ev of
           None \<Rightarrow> Inl OtherError
         | Some parsed \<Rightarrow>
             (case parseEntries parsed (\<lambda>k. Absent) None of
                Inl e \<Rightarrow> Inl e
              | Inr (flds, photoFile) \<Rightarrow> Inr (Fields flds, photoFile)))
      else if includes_str ctype ''application/json'' then
        (case jsonBody ev of
           None \<Rightarrow> Inl OtherError
         | Some flds \<Rightarrow> Inr (flds, None))
      else
        Inr (Fields (foldl (\<lambda>flds (k, v). flds(k := Str v)) (\<lambda>k. Absent) (urlParams ev)),
             None))"

section \<open>Upload and the handler\<close>

definition envSet :: "string option \<Rightarrow> bool" where
  "envSet v \<longleftrightarrow> (case v of None \<Rightarrow> False | Some s \<Rightarrow> s \<noteq> [])"

definition getCloudinaryConfig :: "world \<Rightarrow> exn + cloudinary_config" where
  "getCloudinaryConfig w =
     (let env = processEnv w;
          folderName = trim (if envSet (CLOUDINARY_FOLDER env) then the (CLOUDINARY_FOLDER env)
                             else ''catsof-dev'') in
      if \<not> envSet (CLOUDINARY_CLOUD_NAME env) \<or> \<not> envSet (CLOUDINARY_API_KEY env)
           \<or> \<not> envSet (CLOUDINARY_API_SECRET env)
      then Inl (SubmissionError ''Missing Cloudinary configuration.'' 500)
      else Inr \<lparr>cloudName = the (CLOUDINARY_CLOUD_NAME env),
                 apiKey = the (CLOUDINARY_API_KEY env),
                 apiSecret = the (CLOUDINARY_API_SECRET env),
                 folder = folderName\<rparr>)"

definition uploadToCloudinary ::
  "world \<Rightarrow> image \<Rightarrow> cloudinary_config \<Rightarrow> call list \<times> (exn + string)" where
  "uploadToCloudinary w img cfg =
     ([CloudinaryUpload img cfg],
      (case cloudinaryPost w img cfg of
         CloudinaryUnreachable \<Rightarrow> Inl OtherError
       | CloudinaryNotOk \<Rightarrow> Inl (SubmissionError ''Image upload to Cloudinary failed.'' 502)
       | CloudinaryOk None \<Rightarrow> Inl OtherError
       | CloudinaryOk (Some None) \<Rightarrow>
           Inl (SubmissionError ''Cloudinary response missing secure_url.'' 502)
       | CloudinaryOk (Some (Some secure_url)) \<Rightarrow>
           if secure_url = []
           then Inl (SubmissionError ''Cloudinary response missing secure_url.'' 502)
           else Inr secure_url))"

definition resolveCanonicalPhotoUrl ::
  "world \<Rightarrow> string \<Rightarrow> image option \<Rightarrow> cloudinary_config
     \<Rightarrow> (call list \<times> (exn + string)) option" where
  "resolveCanonicalPhotoUrl w photoUrl photoFile cfg =
     (if (case photoFile of None \<Rightarrow> False | Some f \<Rightarrow> buffer f \<noteq> [])
      then Some (uploadToCloudinary w (the photoFile) cfg)
      else
        (case fetchImageFromUrl w photoUrl of
           None \<Rightarrow> None
         | Some (cs, Inl e) \<Rightarrow> Some (cs, Inl e)
         | Some (cs, Inr remoteImage) \<Rightarrow>
             (case uploadToCloudinary w remoteImage cfg of (ds, r) \<Rightarrow> Some (cs @ ds, r))))"

datatype reply_body = TextBody string | JsonOk string

record reply =
  statusCode :: nat
  replyHeaders :: "(string \<times> string) list"
  replyBody :: reply_body

definition plainReply :: "nat \<Rightarrow> string \<Rightarrow> reply" where
  "plainReply code message = \<lparr>statusCode = code, replyHeaders = [], replyBody = TextBody message\<rparr>"

definition thanksRedirect :: reply where
  "thanksRedirect =
     \<lparr>statusCode = 303, replyHeaders = [(''Location'', ''/thanks/'')], replyBody = TextBody []\<rparr>"

definition formatAirtableError :: "world \<Rightarrow> nat \<Rightarrow> string \<Rightarrow> string" where
  "formatAirtableError w st txt =
     (case airtableErrorOf w txt of
        Some e \<Rightarrow> e @ '' (status '' @ showNat st @ '')''
      | None \<Rightarrow>
          (if txt = [] then ''Unknown Airtable error'' else txt)
            @ '' (status '' @ showNat st @ '')'')"

text \<open>
  \<open>exports.handler\<close> in three parts, in the order of the source: the checks up to
  the parsed body (\<open>handler\<close>), the steps from the honeypot test to the canonical URL
  (\<open>submit\<close>), and the write to the store with the answer it leads to
  (\<open>saveSubmission\<close>). Each gives the answer and the calls made on the way. \<open>Inl\<close> is
  an exception that leaves the handler; \<open>None\<close> is a run that never returns.
\<close>

definition saveSubmission ::
  "world \<Rightarrow> event \<Rightarrow> (string \<Rightarrow> field_value) \<Rightarrow> string \<Rightarrow> string \<Rightarrow> string
     \<Rightarrow> call list \<times> reply" where
  "saveSubmission w ev flds catName humanName canonicalPhotoUrl =
     (let fresh = \<lparr>Cat_Name = catName, Human_Name = humanName,
                    Developer_URL = cleanText (flds ''devUrl''),
                    Photo_URL = canonicalPhotoUrl,
                    Story = cleanText (flds ''story''),
                    Status = ''Pending''\<rparr> in
      ([AirtablePost fresh],
       (case airtablePost w fresh of
          AirtableUnreachable \<Rightarrow> plainReply 500 ''Could not save submission.''
        | AirtableResponse st txt \<Rightarrow>
            if \<not> (200 \<le> st \<and> st \<le> 299) then
              \<lparr>statusCode = 500,
               replyHeaders = [(''Content-Type'', ''text/plain'')],
               replyBody = TextBody (''Could not save submission. ''
                 @ formatAirtableError w st txt)\<rparr>
            else if includes_str (getHeader ev ''accept'') ''application/json''
            then \<lparr>statusCode = 200,
                  replyHeaders = [(''Content-Type'', ''application/json'')],
                  replyBody = JsonOk canonicalPhotoUrl\<rparr>
            else thanksRedirect)))"

definition submit ::
  "world \<Rightarrow> event \<Rightarrow> (string \<Rightarrow> field_value) \<Rightarrow> image option
     \<Rightarrow> (call list \<times> (exn + reply)) option" where
  "submit w ev flds photoFile =
     (if truthy (flds ''website'') then Some ([], Inr thanksRedirect)
      else
        let catName = cleanText (flds ''catName'');
            humanName = cleanText (flds ''humanName'');
            photoUrl = cleanText (flds ''photoUrl'') in
        if catName = [] \<or> humanName = []
        then Some ([], Inr (plainReply 400 ''catName and humanName are required.''))
        else if photoFile = None \<and> photoUrl = []
        then Some ([], Inr (plainReply 400 ''Provide either photoFile or photoUrl.''))
        else
          (case getCloudinaryConfig w of
             Inl (SubmissionError message code) \<Rightarrow> Some ([], Inr (plainReply code message))
           | Inl OtherError \<Rightarrow>
               Some ([], Inr (plainReply 500 ''Missing Cloudinary configuration.''))
           | Inr cfg \<Rightarrow>
               (case resolveCanonicalPhotoUrl w photoUrl photoFile cfg of
                  None \<Rightarrow> None
                | Some (cs, Inl (SubmissionError message code)) \<Rightarrow>
                    Some (cs, Inr (plainReply code message))
                | Some (cs, Inl OtherError) \<Rightarrow>
                    Some (cs, Inr (plainReply 500 ''Could not process image input.''))
                | Some (cs, Inr canonicalPhotoUrl) \<Rightarrow>
                    (case saveSubmission w ev flds catName humanName canonicalPhotoUrl of
                       (ds, answer) \<Rightarrow> Some (cs @ ds, Inr answer)))))"

definition handler :: "world \<Rightarrow> event \<Rightarrow> (call list \<times> (exn + reply)) option" where
  "handler w ev =
     (if httpMethod ev \<noteq> ''POST'' then Some ([], Inr (plainReply 405 ''Method Not Allowed''))
      else if \<not> envSet (AIRTABLE_TOKEN (processEnv w))
                \<or> \<not> envSet (AIRTABLE_BASE_ID (processEnv w))
      then Some ([], Inr (plainReply 500 ''Missing Airtable configuration.''))
      else
        (case parseBody ev of
           Inl (SubmissionError message code) \<Rightarrow> Some ([], Inr (plainReply code message))
         | Inl OtherError \<Rightarrow> Some ([], Inr (plainReply 400 ''Invalid form payload.''))
         | Inr (NullFields, photoFile) \<Rightarrow> Some ([], Inl OtherError)
         | Inr (Fields flds, photoFile) \<Rightarrow> submit w ev flds photoFile))"

section \<open>The approved list read at build time\<close>

text \<open>
  \<^verbatim>\<open>src/_data/cats.js\<close>. A record of the store has an id, a creation time that may
  be missing, and its \<^verbatim>\<open>fields\<close> object, in which each field may be missing;
  \<^verbatim>\<open>a || b\<close> on a string that may be missing or empty is \<open>orElse\<close>. The fields of
  the mapped object carry the prefix \<open>cat_\<close> here.
\<close>

record store_record =
  recordId :: string
  recordCreatedTime :: "string option"
  recordFields :: "string \<rightharpoonup> string"

record cat =
  cat_id :: string
  cat_createdTime :: string
  cat_name :: string
  cat_human :: string
  cat_developerUrl :: string
  cat_photoUrl :: string
  cat_story :: string

definition orElse :: "string option \<Rightarrow> string \<Rightarrow> string" where
  "orElse v d = (case v of None \<Rightarrow> d | Some s \<Rightarrow> if s = [] then d else s)"

definition toCat :: "store_record \<Rightarrow> cat" where
  "toCat r =
     \<lparr>cat_id = recordId r,
      cat_createdTime = orElse (recordCreatedTime r) [],
      cat_name = orElse (recordFields r ''Cat Name'') ''Unnamed Cat'',
      cat_human = orElse (recordFields r ''Human Name'') ''Anonymous Developer'',
      cat_developerUrl = orElse (recordFields r ''Developer URL'') [],
      cat_photoUrl = orElse (recordFields r ''Photo URL'') [],
      cat_story = orElse (recordFields r ''Story'') []\<rparr>"

text \<open>
  The comparator \<^verbatim>\<open>(a, b) => Date.parse(b.createdTime) - Date.parse(a.createdTime)\<close>
  as \<^verbatim>\<open>Array.prototype.sort\<close> reads it: \<^verbatim>\<open>Date.parse\<close> is a parameter
  (\<open>None\<close> is \<^verbatim>\<open>NaN\<close>), and a difference that is \<^verbatim>\<open>NaN\<close> counts as 0.
\<close>

definition compareCreated :: "(string \<Rightarrow> int option) \<Rightarrow> cat \<Rightarrow> cat \<Rightarrow> int" where
  "compareCreated dateParse a b =
     (case (dateParse (cat_createdTime b), dateParse (cat_createdTime a)) of
        (Some tb, Some ta) \<Rightarrow> tb - ta
      | _ \<Rightarrow> 0)"

text \<open>
  \<^verbatim>\<open>Array.prototype.sort(comparefn)\<close> is modelled as a stable insertion sort. The
  language fixes the result whenever the comparator is a consistent order (the sort is
  stable), which it is when the creation time of every row parses, as it does for the
  rows the store returns: the store stamps every record with its creation time. For other
  comparators the language leaves the order to the engine, and nothing is stated about
  them here.
\<close>

fun insertSorted :: "('a \<Rightarrow> 'a \<Rightarrow> int) \<Rightarrow> 'a \<Rightarrow> 'a list \<Rightarrow> 'a list" where
  "insertSorted cmp x [] = [x]"
| "insertSorted cmp x (y # ys) =
     (if cmp x y \<le> 0 then x # y # ys else y # insertSorted cmp x ys)"

definition arraySort :: "('a \<Rightarrow> 'a \<Rightarrow> int) \<Rightarrow> 'a list \<Rightarrow> 'a list" where
  "arraySort cmp xs = foldr (insertSorted cmp) xs []"

datatype list_reply = ListUnreachable | ListNotOk | ListOk "store_record list option"

definition cats :: "(string \<Rightarrow> int option) \<Rightarrow> process_env \<Rightarrow> list_reply \<Rightarrow> cat list" where
  "cats dateParse env reply =
     (if \<not> envSet (AIRTABLE_TOKEN env) \<or> \<not> envSet (AIRTABLE_BASE_ID env) then []
      else
        (case reply of
           ListUnreachable \<Rightarrow> []
         | ListNotOk \<Rightarrow> []
         | ListOk None \<Rightarrow> []
         | ListOk (Some records) \<Rightarrow>
             filter (\<lambda>c. cat_photoUrl c \<noteq> [])
               (arraySort (compareCreated dateParse) (map toCat records))))"

section \<open>Notions used to state the properties\<close>

text \<open>The bytes a reader has delivered by reads \<open>i\<close> up to \<open>n\<close> (exclusive).\<close>

fun chunkBytes :: "chunk_read \<Rightarrow> bytes" where
  "chunkBytes (ReadChunk v) = v"
| "chunkBytes ReadDone = []"
| "chunkBytes ReadRejects = []"

fun isChunk :: "chunk_read \<Rightarrow> bool" where
  "isChunk (ReadChunk v) = True"
| "isChunk ReadDone = False"
| "isChunk ReadRejects = False"

definition received :: "(nat \<Rightarrow> chunk_read) \<Rightarrow> nat \<Rightarrow> nat \<Rightarrow> bytes" where
  "received rd i n = concat (map (\<lambda>j. chunkBytes (rd j)) [i..<n])"

text \<open>
  Hop \<open>h\<close> on the URL \<open>u\<close> is a redirect when \<open>u\<close> passes the validator and the origin
  answers 3xx with a location that resolves; \<open>redirectChain w h n u\<close> is the URL reached
  from \<open>u\<close> after \<open>n\<close> redirects in a row, the first at hop \<open>h\<close>.
\<close>

definition redirectHop :: "world \<Rightarrow> nat \<Rightarrow> string \<Rightarrow> string option" where
  "redirectHop w h u =
     (case assertPublicUrl w h u of
        Inl e \<Rightarrow> None
      | Inr v \<Rightarrow>
          (case httpGet w h v of
             FetchResponse r \<Rightarrow>
               if status r \<ge> 300 \<and> status r < 400 then
                 (case location r of
                    None \<Rightarrow> None
                  | Some loc \<Rightarrow> if loc = [] then None else resolveURL w loc v)
               else None
           | _ \<Rightarrow> None))"

fun redirectChain :: "world \<Rightarrow> nat \<Rightarrow> nat \<Rightarrow> string \<Rightarrow> string option" where
  "redirectChain w h 0 u = Some u"
| "redirectChain w h (Suc n) u =
     (case redirectHop w h u of
        None \<Rightarrow> None
      | Some u' \<Rightarrow> redirectChain w (Suc h) n u')"

text \<open>
  A log of the fetcher from hop \<open>h\<close> on is validated when every request is the very URL
  the validator returned for the current URL at that hop, called just before it.
\<close>

fun validatedLog :: "world \<Rightarrow> nat \<Rightarrow> call list \<Rightarrow> bool" where
  "validatedLog w h [] = True"
| "validatedLog w h [ReaderCancel] = True"
| "validatedLog w h [AssertPublicUrl c] = isl (assertPublicUrl w h c)"
| "validatedLog w h (AssertPublicUrl c # HttpGet v # cs) =
     (assertPublicUrl w h c = Inr v \<and> validatedLog w (Suc h) cs)"
| "validatedLog w h cs = False"

fun isStoreWrite :: "call \<Rightarrow> bool" where
  "isStoreWrite (AirtablePost p) = True"
| "isStoreWrite c = False"

fun isUpload :: "call \<Rightarrow> bool" where
  "isUpload (CloudinaryUpload img cfg) = True"
| "isUpload c = False"

text \<open>Rows are newest first when no row with a time comes before a row with a later time.\<close>

definition newer :: "(string \<Rightarrow> int option) \<Rightarrow> cat \<Rightarrow> cat \<Rightarrow> bool" where
  "newer dp a b = (case (dp (cat_createdTime a), dp (cat_createdTime b)) of
                          (Some ta, Some tb) \<Rightarrow> tb \<le> ta
                        | _ \<Rightarrow> True)"

definition newestFirst :: "(string \<Rightarrow> int option) \<Rightarrow> cat list \<Rightarrow> bool" where
  "newestFirst dateParse cs =
     sorted_wrt (\<lambda>a b. case (dateParse (cat_createdTime a), dateParse (cat_createdTime b)) of
                          (Some ta, Some tb) \<Rightarrow> tb \<le> ta
                        | _ \<Rightarrow> True) cs"

text \<open>The 32-bit value of a dotted quad and membership in a CIDR block.\<close>

definition ipv4Value :: "string \<Rightarrow> nat" where
  "ipv4Value ip = foldl (\<lambda>acc p. 256 * acc + decimal p) 0 (split_on CHR ''.'' ip)"

definition inBlock :: "nat \<Rightarrow> nat \<Rightarrow> nat \<Rightarrow> bool" where
  "inBlock v base bits \<longleftrightarrow> v div 2 ^ (32 - bits) = base div 2 ^ (32 - bits)"

text \<open>
  The private IPv4 ranges: \<^verbatim>\<open>10.0.0.0/8\<close>, \<^verbatim>\<open>127.0.0.0/8\<close>,
  \<^verbatim>\<open>169.254.0.0/16\<close>, \<^verbatim>\<open>172.16.0.0/12\<close>, \<^verbatim>\<open>192.168.0.0/16\<close>
  and \<^verbatim>\<open>0.0.0.0/8\<close>.
\<close>

definition privateV4 :: "nat \<Rightarrow> bool" where
  "privateV4 v \<longleftrightarrow>
     inBlock v 167772160 8 \<or> inBlock v 2130706432 8 \<or> inBlock v 2851995648 16 \<or>
     inBlock v 2886729728 12 \<or> inBlock v 3232235520 16 \<or> inBlock v 0 8"

text \<open>
  The value of the first 16-bit group of a version 6 address, and membership in
  \<^verbatim>\<open>fe80::/10\<close>: the ten leading bits of the address are those of \<^verbatim>\<open>fe80\<close>.
\<close>

definition hexDigit :: "char \<Rightarrow> nat" where
  "hexDigit c =
     (let n = (of_char c :: nat) in
      if 48 \<le> n \<and> n \<le> 57 then n - 48
      else if 97 \<le> n \<and> n \<le> 102 then n - 87
      else n - 55)"

definition firstGroup :: "string \<Rightarrow> nat" where
  "firstGroup ip = foldl (\<lambda>acc c. 16 * acc + hexDigit c) 0 (takeWhile (\<lambda>c. c \<noteq> CHR '':'') ip)"

definition linkLocalV6 :: "string \<Rightarrow> bool" where
  "linkLocalV6 ip \<longleftrightarrow> isIPv6 ip \<and> firstGroup ip div 2 ^ 6 = 65152 div 2 ^ 6"

text \<open>An empty file of the form: what \<open>parseBody\<close> passes over.\<close>

fun emptyFile :: "string \<times> form_value \<Rightarrow> bool" where
  "emptyFile (key, FormFile f) = (fileContent f = [])"
| "emptyFile (key, FormString v) = False"

text \<open>
  The errors the pipeline raises, by where they come from, and the answer the handler gives
  to an error of the pipeline and to an error of the parser.
\<close>

definition pipelineError :: "exn \<Rightarrow> bool" where
  "pipelineError e \<longleftrightarrow> e = OtherError \<or> e = imageTooLarge \<or> (\<exists>m. e = SubmissionError m 400)"

definition knownError :: "exn \<Rightarrow> bool" where
  "knownError e \<longleftrightarrow>
     e = OtherError \<or> (\<exists>m. e = SubmissionError m 400) \<or> e = imageTooLarge
     \<or> e = SubmissionError ''Uploaded image is too large (max 8MB).'' 413
     \<or> e = SubmissionError ''Missing Cloudinary configuration.'' 500
     \<or> e = SubmissionError ''Image upload to Cloudinary failed.'' 502
     \<or> e = SubmissionError ''Cloudinary response missing secure_url.'' 502"

fun errorReply :: "exn \<Rightarrow> reply" where
  "errorReply (SubmissionError message code) = plainReply code message"
| "errorReply OtherError = plainReply 500 ''Could not process image input.''"

fun parseErrorReply :: "exn \<Rightarrow> reply" where
  "parseErrorReply (SubmissionError message code) = plainReply code message"
| "parseErrorReply OtherError = plainReply 400 ''Invalid form payload.''"

subsection \<open>The kinds of failure of a submission\<close>



text \<open>
  A media type is allowed when the text before its first \<^verbatim>\<open>;\<close>, trimmed and in
  lower case, is one of the five image types.
\<close>

definition allowedType :: "string \<Rightarrow> bool" where
  "allowedType raw \<longleftrightarrow>
     toLowerCase (trim (takeWhile (\<lambda>c. c \<noteq> CHR '';'') raw))
       \<in> set [''image/jpeg'', ''image/png'', ''image/webp'', ''image/gif'', ''image/avif'']"

text \<open>
  The request is multipart or JSON by its content type. An entry of a form offends when it
  is a file \<^verbatim>\<open>photoFile\<close> that is not empty and is too large or of a type that is
  not allowed; the first such entry decides how parsing fails.
\<close>

definition multipart :: "event \<Rightarrow> bool" where
  "multipart ev \<longleftrightarrow> includes_str (getHeader ev ''content-type'') ''multipart/form-data''"
















definition uploadConfigured :: "world \<Rightarrow> bool" where
  "uploadConfigured w \<longleftrightarrow>
     envSet (CLOUDINARY_CLOUD_NAME (processEnv w)) \<and> envSet (CLOUDINARY_API_KEY (processEnv w))
     \<and> envSet (CLOUDINARY_API_SECRET (processEnv w))"




section \<open>A concrete world\<close>

text \<open>
  One origin, \<^verbatim>\<open>cats.example\<close>, that redirects \<open>k\<close> times and then answers with a
  given response; a name that resolves to a public and a private address; a name that
  resolves into \<^verbatim>\<open>fe80::/10\<close> and one that resolves to a public address and into
  \<^verbatim>\<open>fe80::/10\<close>; Cloudinary and Airtable accepting everything.
\<close>

definition demoParse :: "string \<Rightarrow> url option" where
  "demoParse s =
     (if prefix ''http://cats.example/'' s
      then Some \<lparr>protocol = ''http:'', hostname = ''cats.example'', pathname = drop 19 s, href = s\<rparr>
      else if prefix ''http://mixed.example/'' s
      then Some \<lparr>protocol = ''http:'', hostname = ''mixed.example'', pathname = drop 20 s, href = s\<rparr>
      else if prefix ''http://linklocal.example/'' s
      then Some \<lparr>protocol = ''http:'', hostname = ''linklocal.example'', pathname = drop 24 s,
                  href = s\<rparr>
      else if prefix ''http://rebind.example/'' s
      then Some \<lparr>protocol = ''http:'', hostname = ''rebind.example'', pathname = drop 21 s,
                  href = s\<rparr>
      else None)"

definition demoDns :: "nat \<Rightarrow> string \<Rightarrow> string list option" where
  "demoDns hop host =
     (if host = ''cats.example'' then Some [''93.184.216.34'']
      else if host = ''mixed.example'' then Some [''93.184.216.34'', ''10.0.0.5'']
      else if host = ''linklocal.example'' then Some [''fe90::1'']
      else if host = ''rebind.example'' then Some [''93.184.216.34'', ''fe90::1'']
      else None)"

definition demoEnv :: process_env where
  "demoEnv =
     \<lparr>AIRTABLE_TOKEN = Some ''token'', AIRTABLE_BASE_ID = Some ''base'',
      AIRTABLE_TABLE_NAME = None, AIRTABLE_VIEW = None,
      CLOUDINARY_CLOUD_NAME = Some ''cloud'', CLOUDINARY_API_KEY = Some ''key'',
      CLOUDINARY_API_SECRET = Some ''secret'', CLOUDINARY_FOLDER = None\<rparr>"

definition redirectResponse :: response where
  "redirectResponse =
     \<lparr>status = 302, location = Some ''/next.png'', contentLength = None, contentType = None,
      body = NoReader (Some [])\<rparr>"

definition pngResponse :: "string option \<Rightarrow> body_stream \<Rightarrow> response" where
  "pngResponse declared b =
     \<lparr>status = 200, location = None, contentLength = declared,
      contentType = Some ''image/png'', body = b\<rparr>"

definition demoWorld :: "nat \<Rightarrow> response \<Rightarrow> world" where
  "demoWorld k final =
     \<lparr>parseURL = demoParse,
      resolveURL = (\<lambda>loc base. Some (''http://cats.example'' @ loc)),
      dnsLookup = demoDns,
      httpGet = (\<lambda>hop u. if hop < k then FetchResponse redirectResponse
                          else FetchResponse final),
      cloudinaryPost = (\<lambda>img cfg. CloudinaryOk (Some (Some ''https://res.example/cat.png''))),
      airtablePost = (\<lambda>p. AirtableResponse 200 []),
      airtableErrorOf = (\<lambda>t. None),
      processEnv = demoEnv\<rparr>"

definition demoEvent :: "(string \<times> form_value) list \<Rightarrow> event" where
  "demoEvent entries =
     \<lparr>httpMethod = ''POST'',
      eventHeaders = [''content-type'' \<mapsto> ''multipart/form-data; boundary=x''],
      formData = Some entries, jsonBody = None, urlParams = []\<rparr>"

text \<open>A reader that delivers two chunks of two bytes and is done.\<close>

definition twoChunks :: "nat \<Rightarrow> chunk_read" where
  "twoChunks i = (if i < 2 then ReadChunk [1, 2] else ReadDone)"

text \<open>A reader that never stops delivering chunks of 4 MiB plus one byte.\<close>

definition endless :: "nat \<Rightarrow> chunk_read" where
  "endless i = ReadChunk (replicate 4194305 0)"

text \<open>
  Three records of the store as it returns them, each with its creation time, the second
  without a photo, and \<^verbatim>\<open>Date.parse\<close> on the three creation times.
\<close>

definition demoRecords :: "store_record list" where
  "demoRecords =
     [\<lparr>recordId = ''recA'', recordCreatedTime = Some ''2024-01-01T00:00:00.000Z'',
       recordFields = [''Photo URL'' \<mapsto> ''https://res.example/a.png'']\<rparr>,
      \<lparr>recordId = ''recB'', recordCreatedTime = Some ''2024-02-01T00:00:00.000Z'',
       recordFields = Map.empty\<rparr>,
      \<lparr>recordId = ''recC'', recordCreatedTime = Some ''2024-03-01T00:00:00.000Z'',
       recordFields = [''Photo URL'' \<mapsto> ''https://res.example/c.png'']\<rparr>]"

definition demoDateParse :: "string \<Rightarrow> int option" where
  "demoDateParse s =
     (if s = ''2024-01-01T00:00:00.000Z'' then Some 1704067200000
      else if s = ''2024-02-01T00:00:00.000Z'' then Some 1706745600000
      else if s = ''2024-03-01T00:00:00.000Z'' then Some 1709251200000
      else None)"





text \<open>
  Submissions: a cat by URL, the same with an empty file attached, a bot that filled the
  honeypot, an HTML file; an upload service that refuses; origins that answer with HTML
  and with 404.
\<close>

definition pngFile :: "bytes \<Rightarrow> upload_file" where
  "pngFile content = \<lparr>fileName = ''tom.png'', fileType = ''image/png'', fileContent = content\<rparr>"

definition htmlFile :: upload_file where
  "htmlFile = \<lparr>fileName = ''a.html'', fileType = ''text/html'', fileContent = [1]\<rparr>"

definition tomByUrl :: "(string \<times> form_value) list" where
  "tomByUrl = [(''catName'', FormString ''Tom''), (''humanName'', FormString ''Ann''),
               (''photoUrl'', FormString ''http://cats.example/a.png'')]"

definition tomWithEmptyFile :: "(string \<times> form_value) list" where
  "tomWithEmptyFile = [(''catName'', FormString ''Tom''), (''humanName'', FormString ''Ann''),
                       (''photoFile'', FormFile (pngFile []))]"

definition spam :: "(string \<times> form_value) list" where
  "spam = [(''website'', FormString ''http://spam.example''), (''catName'', FormString ''Tom''),
           (''photoUrl'', FormString ''http://cats.example/a.png'')]"

definition uploadRefused :: world where
  "uploadRefused = (demoWorld 0 (pngResponse None (Reader twoChunks)))
                     \<lparr>cloudinaryPost := (\<lambda>img cfg. CloudinaryNotOk)\<rparr>"



section \<open>Lemmas about strings and the MIME gate\<close>

lemma split_on_not_Nil: "split_on c s \<noteq> []"
  by (induction s) (auto split: list.splits)

lemma hd_split_on: "hd (split_on c s) = takeWhile (\<lambda>x. x \<noteq> c) s"
proof (induction s)
  case Nil
  show ?case by simp
next
  case (Cons x xs)
  then show ?case
    using split_on_not_Nil [of c xs] by (cases "split_on c xs") auto
qed

lemma digit_not_space: "is_digit c \<Longrightarrow> \<not> js_whitespace c"
  by (auto simp: is_digit_def js_whitespace_def)

lemma dropWhile_unchanged: "xs \<noteq> [] \<Longrightarrow> \<not> P (hd xs) \<Longrightarrow> dropWhile P xs = xs"
  by (cases xs) auto

lemma trim_digits: "list_all is_digit d \<Longrightarrow> trim d = d"
proof (cases "d = []")
  case True
  then show ?thesis by (simp add: trim_def)
next
  case False
  assume d: "list_all is_digit d"
  with False have "is_digit (hd d)" "is_digit (last d)"
    by (simp_all add: list_all_iff)
  then have "\<not> js_whitespace (hd d)" "\<not> js_whitespace (hd (rev d))"
    using False by (simp_all add: digit_not_space hd_rev)
  with False have "dropWhile js_whitespace d = d" "dropWhile js_whitespace (rev d) = rev d"
    by (simp_all add: dropWhile_unchanged)
  then show ?thesis by (simp add: trim_def)
qed

lemma jsNumber_digits:
  assumes "list_all is_digit d"
  shows "jsNumber d = Some (int (decimal d))"
proof (cases d)
  case Nil
  then show ?thesis by (simp add: jsNumber_def trim_def decimal_def)
next
  case (Cons a as)
  with assms have "is_digit a" by simp
  then have "a \<noteq> CHR ''-''" "a \<noteq> CHR ''+''"
    by (auto simp: is_digit_def)
  with Cons assms show ?thesis
    by (simp add: jsNumber_def trim_digits Let_def)
qed

lemma sanitize_error:
  "sanitizeImageMimeType raw = Inl e \<Longrightarrow>
     e = SubmissionError ''Only JPEG, PNG, WEBP, GIF, and AVIF images are allowed.'' 400"
  by (simp add: sanitizeImageMimeType_def Let_def submissionError_def split: if_splits)

lemma sanitize_allowed:
  "sanitizeImageMimeType raw = Inr m \<Longrightarrow> m \<in> set ALLOWED_IMAGE_MIME_TYPES"
  by (simp add: sanitizeImageMimeType_def Let_def split: if_splits)

section \<open>Lemmas about the classification of addresses\<close>

lemma ipv4_value_div:
  fixes A B C D :: nat
  assumes "B < 256" "C < 256" "D < 256"
  shows "(256 * (256 * (256 * A + B) + C) + D) div 16777216 = A"
    and "(256 * (256 * (256 * A + B) + C) + D) div 65536 = 256 * A + B"
    and "(256 * (256 * (256 * A + B) + C) + D) div 1048576 = 16 * A + B div 16"
  using assms by auto

lemma v4Seg_number:
  assumes "v4Seg p"
  shows "jsNumber p = Some (int (decimal p))" and "decimal p < 256"
  using assms jsNumber_digits[of p] by (auto simp: v4Seg_def)

lemma isPrivateIPv4_blocks:
  assumes "isIPv4 ip"
  shows "isPrivateIpAddress ip \<longleftrightarrow> privateV4 (ipv4Value ip)"
proof -
  from assms obtain a b c d where parts: "split_on CHR ''.'' ip = [a, b, c, d]"
    and seg: "v4Seg a" "v4Seg b" "v4Seg c" "v4Seg d"
    by (auto simp: isIPv4_def Let_def length_Suc_conv numeral_eq_Suc)
  define A B C D where "A = decimal a" and "B = decimal b" and "C = decimal c" and "D = decimal d"
  note n = v4Seg_number[OF seg(1)] v4Seg_number[OF seg(2)] v4Seg_number[OF seg(3)]
    v4Seg_number[OF seg(4)]
  from n have bound: "A < 256" "B < 256" "C < 256" "D < 256"
    by (simp_all add: A_def B_def C_def D_def)
  from assms have "isPrivateIpAddress ip = isPrivateIPv4 ip"
    by (simp add: isPrivateIpAddress_def isIP_def)
  also from parts n have "isPrivateIPv4 ip \<longleftrightarrow>
      A = 10 \<or> A = 127 \<or> (A = 169 \<and> B = 254) \<or> (A = 172 \<and> 16 \<le> B \<and> B \<le> 31) \<or>
      (A = 192 \<and> B = 168) \<or> A = 0"
    by (auto simp: isPrivateIPv4_def A_def B_def)
  finally have priv: "isPrivateIpAddress ip \<longleftrightarrow>
      A = 10 \<or> A = 127 \<or> (A = 169 \<and> B = 254) \<or> (A = 172 \<and> 16 \<le> B \<and> B \<le> 31) \<or>
      (A = 192 \<and> B = 168) \<or> A = 0" .
  from parts have v: "ipv4Value ip = 256 * (256 * (256 * A + B) + C) + D"
    by (simp add: ipv4Value_def A_def B_def C_def D_def)
  note dv = ipv4_value_div[OF bound(2,3,4), of A]
  have blk: "\<And>x base. inBlock x base 8 \<longleftrightarrow> x div 16777216 = base div 16777216"
    "\<And>x base. inBlock x base 16 \<longleftrightarrow> x div 65536 = base div 65536"
    "\<And>x base. inBlock x base 12 \<longleftrightarrow> x div 1048576 = base div 1048576"
    by (simp_all add: inBlock_def)
  have b8: "\<And>base. inBlock (ipv4Value ip) base 8 \<longleftrightarrow> A = base div 16777216"
    by (simp only: blk v dv)
  have b16: "\<And>base. inBlock (ipv4Value ip) base 16 \<longleftrightarrow> 256 * A + B = base div 65536"
    by (simp only: blk v dv)
  have b12: "\<And>base. inBlock (ipv4Value ip) base 12 \<longleftrightarrow> 16 * A + B div 16 = base div 1048576"
    by (simp only: blk v dv)
  from bound have dm: "(256 * A + B) div 256 = A" "(256 * A + B) mod 256 = B"
    by simp_all
  from bound have "B div 16 < 16" by simp
  then have dm': "(16 * A + B div 16) div 16 = A" "(16 * A + B div 16) mod 16 = B div 16"
    by simp_all
  have e1: "(256 * A + B = 43518) = (A = 169 \<and> B = 254)"
  proof
    assume "256 * A + B = 43518"
    with dm have "A = 43518 div 256" "B = 43518 mod 256" by simp_all
    then show "A = 169 \<and> B = 254" by simp
  qed simp
  have e2: "(256 * A + B = 49320) = (A = 192 \<and> B = 168)"
  proof
    assume "256 * A + B = 49320"
    with dm have "A = 49320 div 256" "B = 49320 mod 256" by simp_all
    then show "A = 192 \<and> B = 168" by simp
  qed simp
  have e3: "(16 * A + B div 16 = 2753) = (A = 172 \<and> 16 \<le> B \<and> B \<le> 31)"
  proof
    assume "16 * A + B div 16 = 2753"
    with dm' have "A = 2753 div 16" "B div 16 = 2753 mod 16" by simp_all
    then have "A = 172" "B div 16 = 1" by simp_all
    then show "A = 172 \<and> 16 \<le> B \<and> B \<le> 31" by arith
  next
    assume "A = 172 \<and> 16 \<le> B \<and> B \<le> 31"
    then have "A = 172" "B div 16 = 1" by arith+
    then show "16 * A + B div 16 = 2753" by simp
  qed
  from e1 e2 e3 show ?thesis
    unfolding privateV4_def priv b8 b16 b12 by simp
qed

lemma assertPublicUrl_checks_every_record:
  assumes "parseURL w urlString = Some parsedUrl"
    and "protocol parsedUrl = ''https:'' \<or> protocol parsedUrl = ''http:''"
    and "isIP (toLowerCase (hostname parsedUrl)) = 0"
    and "dnsLookup w hop (toLowerCase (hostname parsedUrl)) = Some records"
  shows "((\<exists>a \<in> set records. isPrivateIpAddress a) \<longrightarrow>
            assertPublicUrl w hop urlString =
              Inl (SubmissionError ''photoUrl cannot target local/internal hosts.'' 400))
       \<and> ((\<exists>a \<in> set records. isIPv4 a \<and> privateV4 (ipv4Value a)) \<longrightarrow>
            assertPublicUrl w hop urlString =
              Inl (SubmissionError ''photoUrl cannot target local/internal hosts.'' 400))
       \<and> (assertPublicUrl w hop urlString = Inr u \<longrightarrow>
            records \<noteq> [] \<and> (\<forall>a \<in> set records. \<not> isPrivateIpAddress a) \<and> u = href parsedUrl)"
proof -
  have any: "(\<exists>a \<in> set records. isPrivateIpAddress a) \<longrightarrow>
            assertPublicUrl w hop urlString =
              Inl (SubmissionError ''photoUrl cannot target local/internal hosts.'' 400)"
    using assms
    by (auto simp: assertPublicUrl_def Let_def unsafeHost_def unresolvableHost_def
        submissionError_def list_ex_iff)
  have "(\<exists>a \<in> set records. isIPv4 a \<and> privateV4 (ipv4Value a)) \<longrightarrow>
          (\<exists>a \<in> set records. isPrivateIpAddress a)"
    using isPrivateIPv4_blocks by blast
  with any have v4: "(\<exists>a \<in> set records. isIPv4 a \<and> privateV4 (ipv4Value a)) \<longrightarrow>
            assertPublicUrl w hop urlString =
              Inl (SubmissionError ''photoUrl cannot target local/internal hosts.'' 400)"
    by blast
  have ok: "assertPublicUrl w hop urlString = Inr u \<longrightarrow>
            records \<noteq> [] \<and> (\<forall>a \<in> set records. \<not> isPrivateIpAddress a) \<and> u = href parsedUrl"
    using assms
    by (auto simp: assertPublicUrl_def Let_def unsafeHost_def unresolvableHost_def
        submissionError_def list_ex_iff split: if_splits)
  from any v4 ok show ?thesis by blast
qed

section \<open>Lemmas about the reader\<close>

lemma received_step: "i < n \<Longrightarrow> received rd i n = chunkBytes (rd i) @ received rd (Suc i) n"
  by (simp add: received_def upt_conv_Cons)

lemma received_empty [simp]: "received rd n n = []"
  by (simp add: received_def)

lemma received_Suc: "i \<le> n \<Longrightarrow> received rd i (Suc n) = received rd i n @ chunkBytes (rd n)"
  by (simp add: received_def)

lemma readLoop_crosses:
  assumes "i \<le> n"
    and "\<forall>j. i \<le> j \<and> j \<le> n \<longrightarrow> isChunk (rd j)"
    and "tot + length (received rd i n) \<le> maxBytes"
    and "tot + length (received rd i (Suc n)) > maxBytes"
  shows "readLoop rd maxBytes i chunks tot =
           Some \<lparr>outcome = Inl imageTooLarge, reads = Suc n, cancelled = True\<rparr>"
  using assms
proof (induction "n - i" arbitrary: i chunks tot)
  case 0
  then have [simp]: "i = n" by simp
  from 0 obtain v where v: "rd n = ReadChunk v"
    by (cases "rd n") auto
  from 0(5) v have "tot + length v > maxBytes"
    by (simp add: received_Suc)
  with v show ?case
    by (subst readLoop.simps) simp
next
  case (Suc k)
  then have lt: "i < n" by simp
  from Suc.prems obtain v where v: "rd i = ReadChunk v"
    by (cases "rd i") auto
  from Suc.prems(3) lt v have small: "\<not> tot + length v > maxBytes"
    by (simp add: received_step)
  have "readLoop rd maxBytes (Suc i) (chunks @ [v]) (tot + length v) =
          Some \<lparr>outcome = Inl imageTooLarge, reads = Suc n, cancelled = True\<rparr>"
  proof (rule Suc.hyps(1))
    show "k = n - Suc i" using Suc.hyps(2) by simp
    show "Suc i \<le> n" using lt by simp
    show "\<forall>j. Suc i \<le> j \<and> j \<le> n \<longrightarrow> isChunk (rd j)" using Suc.prems(2) by simp
    show "tot + length v + length (received rd (Suc i) n) \<le> maxBytes"
      using Suc.prems(3) lt v by (simp add: received_step)
    show "maxBytes < tot + length v + length (received rd (Suc i) (Suc n))"
      using Suc.prems(4) lt v by (simp add: received_step)
  qed
  with v small show ?case
    by (subst readLoop.simps) simp
qed

lemma bufferConcat_exact: "tot = length (concat chunks) \<Longrightarrow> bufferConcat chunks tot = concat chunks"
  by (simp add: bufferConcat_def)

lemma readLoop_done:
  assumes "i \<le> n"
    and "\<forall>j. i \<le> j \<and> j < n \<longrightarrow> isChunk (rd j)"
    and "rd n = ReadDone"
    and "tot + length (received rd i n) \<le> maxBytes"
    and "tot = length (concat chunks)"
  shows "readLoop rd maxBytes i chunks tot =
           Some \<lparr>outcome = Inr (concat chunks @ received rd i n), reads = Suc n, cancelled = False\<rparr>"
  using assms
proof (induction "n - i" arbitrary: i chunks tot)
  case 0
  then have [simp]: "i = n" by simp
  from 0 show ?case
    by (subst readLoop.simps) (simp add: bufferConcat_exact)
next
  case (Suc k)
  then have lt: "i < n" by simp
  from Suc.prems lt obtain v where v: "rd i = ReadChunk v"
    by (cases "rd i") auto
  from Suc.prems(4) lt v have small: "\<not> tot + length v > maxBytes"
    by (simp add: received_step)
  have "readLoop rd maxBytes (Suc i) (chunks @ [v]) (tot + length v) =
          Some \<lparr>outcome = Inr (concat (chunks @ [v]) @ received rd (Suc i) n), reads = Suc n, cancelled = False\<rparr>"
  proof (rule Suc.hyps(1))
    show "k = n - Suc i" using Suc.hyps(2) by simp
    show "Suc i \<le> n" using lt by simp
    show "\<forall>j. Suc i \<le> j \<and> j < n \<longrightarrow> isChunk (rd j)" using Suc.prems(2) by simp
    show "rd n = ReadDone" by fact
    show "tot + length v + length (received rd (Suc i) n) \<le> maxBytes"
      using Suc.prems(4) lt v by (simp add: received_step)
    show "tot + length v = length (concat (chunks @ [v]))"
      using Suc.prems(5) by simp
  qed
  with v small lt show ?case
    by (subst readLoop.simps) (simp add: received_step)
qed

lemma length_bufferConcat: "length (bufferConcat chunks tot) = tot"
  by (simp add: bufferConcat_def)

lemma readLoop_outcome:
  "readLoop rd maxBytes i chunks tot = Some ro \<Longrightarrow>
     (cancelled ro \<longleftrightarrow> outcome ro = Inl imageTooLarge) \<and>
     (\<forall>e. outcome ro = Inl e \<longrightarrow> e = OtherError \<or> e = imageTooLarge) \<and>
     (tot \<le> maxBytes \<longrightarrow> (\<forall>buf. outcome ro = Inr buf \<longrightarrow> length buf \<le> maxBytes))"
proof (induction rd maxBytes i chunks tot ro
    rule: readLoop.raw_induct[rotated 1, consumes 1, case_names step])
  case (step readLoop' rd maxBytes i chunks tot ro)
  note 1 = step
  show ?case
  proof (cases "rd i")
    case ReadDone
    with 1(2) show ?thesis
      by (auto simp: imageTooLarge_def length_bufferConcat)
  next
    case (ReadChunk v)
    show ?thesis
    proof (cases "maxBytes < tot + length v")
      case True
      with 1(2) ReadChunk show ?thesis
        by (auto simp: imageTooLarge_def)
    next
      case False
      with 1(2) ReadChunk have "readLoop' rd maxBytes (Suc i) (chunks @ [v]) (tot + length v) = Some ro"
        by simp
      then have
        "(cancelled ro \<longleftrightarrow> outcome ro = Inl imageTooLarge) \<and>
         (\<forall>e. outcome ro = Inl e \<longrightarrow> e = OtherError \<or> e = imageTooLarge) \<and>
         (tot + length v \<le> maxBytes \<longrightarrow>
            (\<forall>buf. outcome ro = Inr buf \<longrightarrow> length buf \<le> maxBytes))"
        by (rule 1(1))
      with False show ?thesis by simp
    qed
  next
    case ReadRejects
    with 1(2) show ?thesis
      by (auto simp: imageTooLarge_def)
  qed
qed

lemma readResponseWithLimit_outcome:
  assumes "readResponseWithLimit r maxBytes = Some ro"
  shows "(cancelled ro \<longrightarrow> outcome ro = Inl imageTooLarge)"
    and "outcome ro = Inl e \<Longrightarrow> e = OtherError \<or> e = imageTooLarge"
    and "outcome ro = Inr buf \<Longrightarrow> length buf \<le> maxBytes"
proof -
  show "(cancelled ro \<longrightarrow> outcome ro = Inl imageTooLarge)"
  proof (cases "body r")
    case (NoReader b)
    with assms show ?thesis
      by (cases b) (auto simp: readResponseWithLimit_def split: if_splits)
  next
    case (Reader rd)
    with assms have "readLoop rd maxBytes 0 [] 0 = Some ro"
      by (simp add: readResponseWithLimit_def)
    from readLoop_outcome[OF this] show ?thesis by simp
  qed
  show "outcome ro = Inl e \<Longrightarrow> e = OtherError \<or> e = imageTooLarge"
  proof (cases "body r")
    case (NoReader b)
    assume "outcome ro = Inl e"
    with NoReader assms show ?thesis
      by (cases b) (auto simp: readResponseWithLimit_def split: if_splits)
  next
    case (Reader rd)
    assume e: "outcome ro = Inl e"
    from Reader assms have "readLoop rd maxBytes 0 [] 0 = Some ro"
      by (simp add: readResponseWithLimit_def)
    from readLoop_outcome[OF this] e show ?thesis by simp
  qed
  show "outcome ro = Inr buf \<Longrightarrow> length buf \<le> maxBytes"
  proof (cases "body r")
    case (NoReader b)
    assume "outcome ro = Inr buf"
    with NoReader assms show ?thesis
      by (cases b) (auto simp: readResponseWithLimit_def split: if_splits)
  next
    case (Reader rd)
    assume e: "outcome ro = Inr buf"
    from Reader assms have "readLoop rd maxBytes 0 [] 0 = Some ro"
      by (simp add: readResponseWithLimit_def)
    from readLoop_outcome[OF this] e show ?thesis by simp
  qed
qed

section \<open>Lemmas about the fetcher\<close>

lemma logged_Some: "logged cs r = Some (ds, x) \<longleftrightarrow> (\<exists>es. r = Some (es, x) \<and> ds = cs @ es)"
  by (cases r) (auto simp: logged_def)

lemma logged_simp [simp]: "logged cs (Some (ds, x)) = Some (cs @ ds, x)"
  by (simp add: logged_def)

lemma logged_logged: "logged cs (logged ds r) = logged (cs @ ds) r"
  by (cases r) (auto simp: logged_def)

lemma readImage_result:
  assumes "readImage w v r = Some (ds, res)"
  shows "ds = [] \<or> ds = [ReaderCancel]"
    and "res = Inl e \<Longrightarrow> pipelineError e"
    and "res = Inr img \<Longrightarrow>
           sanitizeImageMimeType (case contentType r of None \<Rightarrow> [] | Some t \<Rightarrow> t) = Inr (mimeType img)
           \<and> buffer img \<noteq> [] \<and> length (buffer img) \<le> MAX_IMAGE_BYTES"
proof -
  let ?declared = "jsNumber (case contentLength r of None \<Rightarrow> ''0''
                               | Some h \<Rightarrow> if h = [] then ''0'' else h)"
  let ?big = "(case ?declared of None \<Rightarrow> False | Some n \<Rightarrow> n > int MAX_IMAGE_BYTES)"
  let ?raw = "(case contentType r of None \<Rightarrow> [] | Some t \<Rightarrow> t)"
  have all: "(ds = [] \<or> ds = [ReaderCancel]) \<and> (\<forall>e. res = Inl e \<longrightarrow> pipelineError e) \<and>
    (\<forall>img. res = Inr img \<longrightarrow> sanitizeImageMimeType ?raw = Inr (mimeType img)
           \<and> buffer img \<noteq> [] \<and> length (buffer img) \<le> MAX_IMAGE_BYTES)"
  proof (cases ?big)
    case True
    with assms have "ds = []" "res = Inl imageTooLarge"
      by (simp_all add: readImage_def Let_def)
    then show ?thesis
      by (simp add: pipelineError_def)
  next
    case False
    note nb = False
    show ?thesis
    proof (cases "sanitizeImageMimeType ?raw")
      case (Inl e)
      with assms nb sanitize_error[OF Inl] show ?thesis
        by (auto simp: readImage_def Let_def pipelineError_def)
    next
      case (Inr mime)
      note mime = Inr
      show ?thesis
      proof (cases "readResponseWithLimit r MAX_IMAGE_BYTES")
        case None
        with assms nb mime show ?thesis
          by (simp add: readImage_def Let_def)
      next
        case (Some ro)
        note ro = Some
        show ?thesis
        proof (cases "outcome ro")
          case (Inl e)
          with assms nb mime ro readResponseWithLimit_outcome(2)[OF ro Inl] show ?thesis
            by (auto simp: readImage_def Let_def pipelineError_def)
        next
          case (Inr buf)
          with readResponseWithLimit_outcome(1)[OF ro] have nc: "\<not> cancelled ro" by auto
          from readResponseWithLimit_outcome(3)[OF ro Inr] have len: "length buf \<le> MAX_IMAGE_BYTES" .
          from assms nb mime ro Inr nc len show ?thesis
            by (auto simp: readImage_def Let_def pipelineError_def submissionError_def
                getFilenameFromUrl_def split: if_splits option.splits)
        qed
      qed
    qed
  qed
  from all show "ds = [] \<or> ds = [ReaderCancel]" by blast
  from all show "res = Inl e \<Longrightarrow> pipelineError e" by blast
  from all show "res = Inr img \<Longrightarrow>
           sanitizeImageMimeType ?raw = Inr (mimeType img)
           \<and> buffer img \<noteq> [] \<and> length (buffer img) \<le> MAX_IMAGE_BYTES" by blast
qed

lemma assertPublicUrl_error:
  "assertPublicUrl w h u = Inl e \<Longrightarrow> \<exists>m. e = SubmissionError m 400"
  by (auto simp: assertPublicUrl_def Let_def submissionError_def unsafeHost_def
      unresolvableHost_def split: option.splits if_splits)

lemma fetchLoop_step:
  assumes "fetchLoop w h u = Some (cs, res)"
  obtains
    (exhausted) "h > MAX_REDIRECTS" "cs = []"
      "res = Inl (SubmissionError ''photoUrl has too many redirects.'' 400)"
  | (refused) e where "h \<le> MAX_REDIRECTS" "assertPublicUrl w h u = Inl e"
      "cs = [AssertPublicUrl u]" "res = Inl e"
  | (failed) v e where "h \<le> MAX_REDIRECTS" "assertPublicUrl w h u = Inr v"
      "cs = [AssertPublicUrl u, HttpGet v]" "res = Inl e" "pipelineError e"
  | (redirect) v r loc nextUrl ds where "h \<le> MAX_REDIRECTS" "assertPublicUrl w h u = Inr v"
      "httpGet w h v = FetchResponse r" "300 \<le> status r \<and> status r < 400"
      "location r = Some loc" "loc \<noteq> []" "resolveURL w loc v = Some nextUrl"
      "fetchLoop w (Suc h) nextUrl = Some (ds, res)" "cs = [AssertPublicUrl u, HttpGet v] @ ds"
  | (terminal) v r ds where "h \<le> MAX_REDIRECTS" "assertPublicUrl w h u = Inr v"
      "httpGet w h v = FetchResponse r" "200 \<le> status r \<and> status r \<le> 299"
      "readImage w v r = Some (ds, res)" "cs = [AssertPublicUrl u, HttpGet v] @ ds"
proof (cases "h \<le> MAX_REDIRECTS")
  case False
  with assms have "cs = []" "res = Inl (SubmissionError ''photoUrl has too many redirects.'' 400)"
    by (subst (asm) fetchLoop.simps, simp add: submissionError_def)+
  with False exhausted show ?thesis by simp
next
  case True
  note le = True
  show ?thesis
  proof (cases "assertPublicUrl w h u")
    case (Inl e)
    with assms le have "cs = [AssertPublicUrl u]" "res = Inl e"
      by (subst (asm) fetchLoop.simps, simp)+
    with le Inl refused show ?thesis by simp
  next
    case (Inr v)
    note v = Inr
    from assms le v obtain ds where cs: "cs = [AssertPublicUrl u, HttpGet v] @ ds"
      by (subst (asm) fetchLoop.simps) (auto simp: logged_Some)
    show ?thesis
    proof (cases "httpGet w h v")
      case FetchAborted
      with assms le v have "cs = [AssertPublicUrl u, HttpGet v]"
        "res = Inl (SubmissionError ''Timed out while fetching photoUrl.'' 400)"
        by (subst (asm) fetchLoop.simps, simp add: submissionError_def)+
      with le v failed[of v] show ?thesis by (simp add: pipelineError_def)
    next
      case FetchFailed
      with assms le v have "cs = [AssertPublicUrl u, HttpGet v]"
        "res = Inl (SubmissionError ''Could not fetch photoUrl.'' 400)"
        by (subst (asm) fetchLoop.simps, simp add: submissionError_def)+
      with le v failed[of v] show ?thesis by (simp add: pipelineError_def)
    next
      case (FetchResponse r)
      note r = FetchResponse
      show ?thesis
      proof (cases "300 \<le> status r \<and> status r < 400")
        case True
        note redir = True
        show ?thesis
        proof (cases "\<exists>loc nextUrl. location r = Some loc \<and> loc \<noteq> [] \<and> resolveURL w loc v = Some nextUrl")
          case True
          then obtain loc nextUrl where
            l: "location r = Some loc" "loc \<noteq> []" "resolveURL w loc v = Some nextUrl"
            by blast
          with assms le v r redir cs have
            "fetchLoop w (Suc h) nextUrl = Some (ds, res)"
            by (subst (asm) fetchLoop.simps) (auto simp: logged_Some)
          with le v r redir l cs redirect show ?thesis by blast
        next
          case False
          with assms le v r redir have "cs = [AssertPublicUrl u, HttpGet v]"
            "\<exists>e. res = Inl e \<and> pipelineError e"
            by (subst (asm) fetchLoop.simps,
                auto simp: logged_Some submissionError_def pipelineError_def
                  split: option.splits if_splits)+
          with le v failed[of v] show ?thesis by blast
        qed
      next
        case False
        note nr = False
        show ?thesis
        proof (cases "200 \<le> status r \<and> status r \<le> 299")
          case True
          with assms le v r nr cs have "readImage w v r = Some (ds, res)"
            by (subst (asm) fetchLoop.simps) (auto simp: logged_Some)
          with le v r True cs terminal show ?thesis by blast
        next
          case False
          with assms le v r nr have "cs = [AssertPublicUrl u, HttpGet v]"
            "\<exists>e. res = Inl e \<and> pipelineError e"
            by (subst (asm) fetchLoop.simps,
                auto simp: logged_Some submissionError_def pipelineError_def)+
          with le v failed[of v] show ?thesis by blast
        qed
      qed
    qed
  qed
qed

lemma fetchLoop_redirect:
  assumes "redirectHop w h u = Some u'" and "h \<le> MAX_REDIRECTS"
  shows "\<exists>v. assertPublicUrl w h u = Inr v \<and>
           fetchLoop w h u = logged [AssertPublicUrl u, HttpGet v] (fetchLoop w (Suc h) u')"
proof -
  from assms(1) obtain v where v: "assertPublicUrl w h u = Inr v"
    by (auto simp: redirectHop_def split: sum.splits)
  from assms(1) v obtain r where r: "httpGet w h v = FetchResponse r"
    by (auto simp: redirectHop_def split: fetch_outcome.splits)
  from assms(1) v r have s: "status r \<ge> 300 \<and> status r < 400"
    by (auto simp: redirectHop_def split: if_splits)
  from assms(1) v r s obtain loc where l: "location r = Some loc" "loc \<noteq> []" "resolveURL w loc v = Some u'"
    by (auto simp: redirectHop_def split: option.splits if_splits)
  from v r s l assms(2) show ?thesis
    by (subst fetchLoop.simps) simp
qed

lemma fetchLoop_chain:
  "redirectChain w h n u = Some u' \<Longrightarrow> h + n \<le> Suc MAX_REDIRECTS \<Longrightarrow>
     \<exists>cs. fetchLoop w h u = logged cs (fetchLoop w (h + n) u')"
proof (induction n arbitrary: h u)
  case 0
  have "fetchLoop w h u = logged [] (fetchLoop w h u)"
    by (cases "fetchLoop w h u") (auto simp: logged_def)
  with 0 show ?case by auto
next
  case (Suc n)
  from Suc.prems(1) obtain u1 where hop: "redirectHop w h u = Some u1"
    and rest: "redirectChain w (Suc h) n u1 = Some u'"
    by (auto split: option.splits)
  from Suc.prems(2) have "h \<le> MAX_REDIRECTS" by simp
  from fetchLoop_redirect[OF hop this] obtain v where
    step: "fetchLoop w h u = logged [AssertPublicUrl u, HttpGet v] (fetchLoop w (Suc h) u1)"
    by blast
  from Suc.IH[OF rest] Suc.prems(2) obtain cs where
    "fetchLoop w (Suc h) u1 = logged cs (fetchLoop w (Suc h + n) u')"
    by auto
  with step show ?case
    by (auto simp: logged_logged)
qed

lemma fetchLoop_exhausted:
  "h > MAX_REDIRECTS \<Longrightarrow>
     fetchLoop w h u = Some ([], Inl (SubmissionError ''photoUrl has too many redirects.'' 400))"
  by (subst fetchLoop.simps) (simp add: submissionError_def)

lemma fetchLoop_terminal:
  assumes "h \<le> MAX_REDIRECTS"
    and "assertPublicUrl w h u = Inr v"
    and "httpGet w h v = FetchResponse r"
    and "200 \<le> status r \<and> status r \<le> 299"
  shows "fetchLoop w h u = logged [AssertPublicUrl u, HttpGet v] (readImage w v r)"
  using assms by (subst fetchLoop.simps) simp

lemma pipelineError_known: "pipelineError e \<Longrightarrow> knownError e"
  by (auto simp: pipelineError_def knownError_def)

lemma fetchLoop_props:
  "fetchLoop w h u = Some (cs, res) \<Longrightarrow>
     validatedLog w h cs \<and> (cs \<noteq> [] \<longrightarrow> hd cs = AssertPublicUrl u) \<and>
     filter isStoreWrite cs = [] \<and> filter isUpload cs = [] \<and>
     (\<forall>e. res = Inl e \<longrightarrow> pipelineError e) \<and>
     (\<forall>img. res = Inr img \<longrightarrow>
        buffer img \<noteq> [] \<and> length (buffer img) \<le> MAX_IMAGE_BYTES \<and>
        (\<exists>hop v r. httpGet w hop v = FetchResponse r \<and>
           sanitizeImageMimeType (case contentType r of None \<Rightarrow> [] | Some t \<Rightarrow> t)
             = Inr (mimeType img)))"
proof (induction w h u arbitrary: cs rule: fetchLoop.induct)
  case (1 w redirectCount currentUrl)
  from "1.prems" show ?case
  proof (cases rule: fetchLoop_step)
    case exhausted
    then show ?thesis by (simp add: pipelineError_def)
  next
    case (refused e)
    with assertPublicUrl_error[OF refused(2)] show ?thesis
      by (auto simp: pipelineError_def)
  next
    case (failed v e)
    then show ?thesis by simp
  next
    case (redirect v r loc nextUrl ds)
    from "1.IH"[OF redirect(1,2,3,4,5,6,7,8)] redirect(2,9) show ?thesis
      by simp
  next
    case (terminal v r ds)
    from readImage_result(1)[OF terminal(5)] have ds: "ds = [] \<or> ds = [ReaderCancel]" .
    have e: "\<forall>e. res = Inl e \<longrightarrow> pipelineError e"
      using readImage_result(2)[OF terminal(5)] by blast
    have i: "\<forall>img. res = Inr img \<longrightarrow>
        buffer img \<noteq> [] \<and> length (buffer img) \<le> MAX_IMAGE_BYTES \<and>
        (\<exists>hop v r. httpGet w hop v = FetchResponse r \<and>
           sanitizeImageMimeType (case contentType r of None \<Rightarrow> [] | Some t \<Rightarrow> t)
             = Inr (mimeType img))"
      using readImage_result(3)[OF terminal(5)] terminal(3) by blast
    from ds terminal(2,6) have "validatedLog w redirectCount cs \<and>
       (cs \<noteq> [] \<longrightarrow> hd cs = AssertPublicUrl currentUrl) \<and>
       filter isStoreWrite cs = [] \<and> filter isUpload cs = []"
      by auto
    with e i show ?thesis by blast
  qed
qed

lemma fetchImageFromUrl_props:
  assumes "fetchImageFromUrl w urlString = Some (cs, res)"
  shows "validatedLog w 0 cs \<and>
     (cs \<noteq> [] \<longrightarrow> hd cs = AssertPublicUrl (cleanText (Str urlString))) \<and>
     filter isStoreWrite cs = [] \<and> filter isUpload cs = [] \<and>
     (\<forall>e. res = Inl e \<longrightarrow> pipelineError e) \<and>
     (\<forall>img. res = Inr img \<longrightarrow>
        buffer img \<noteq> [] \<and> length (buffer img) \<le> MAX_IMAGE_BYTES \<and>
        (\<exists>hop v r. httpGet w hop v = FetchResponse r \<and>
           sanitizeImageMimeType (case contentType r of None \<Rightarrow> [] | Some t \<Rightarrow> t)
             = Inr (mimeType img)))"
proof (cases "cleanText (Str urlString) = []")
  case True
  with assms have "cs = []"
    "res = Inl (SubmissionError ''photoUrl is required when no file is uploaded.'' 400)"
    by (simp_all add: fetchImageFromUrl_def submissionError_def)
  then show ?thesis by (simp add: pipelineError_def)
next
  case False
  with assms have "fetchLoop w 0 (cleanText (Str urlString)) = Some (cs, res)"
    by (simp add: fetchImageFromUrl_def)
  from fetchLoop_props[OF this] show ?thesis .
qed

section \<open>Lemmas about parsing, upload and the handler\<close>

lemma parseEntries_gate:
  "parseEntries entries flds pf = Inr (flds', Some img) \<Longrightarrow>
     pf = Some img \<or>
     (\<exists>f. (''photoFile'', FormFile f) \<in> set entries \<and> fileContent f \<noteq> [] \<and>
          sanitizeImageMimeType (fileType f) = Inr (mimeType img) \<and> buffer img = fileContent f)"
proof (induction entries flds pf rule: parseEntries.induct)
  case (1 flds photoFile)
  then show ?case by simp
next
  case (2 key v rest flds photoFile)
  from 2(2) have "parseEntries rest (flds(key := Str v)) photoFile = Inr (flds', Some img)"
    by (simp del: fun_upd_apply)
  from 2(1)[OF this] show ?case by auto
next
  case (3 key f rest flds photoFile)
  show ?case
  proof (cases "key \<noteq> ''photoFile'' \<or> length (fileContent f) = 0")
    case True
    with 3(3) have "parseEntries rest flds photoFile = Inr (flds', Some img)"
      by simp
    from 3(1)[OF True this] show ?thesis by auto
  next
    case False
    note nf = False
    show ?thesis
    proof (cases "length (fileContent f) > MAX_IMAGE_BYTES")
      case True
      with nf 3(3) show ?thesis by simp
    next
      case False
      note small = False
      show ?thesis
      proof (cases "sanitizeImageMimeType (fileType f)")
        case (Inl e)
        with nf small 3(3) show ?thesis by simp
      next
        case (Inr mime)
        with nf small 3(3) have
          rec: "parseEntries rest flds (Some \<lparr>buffer = fileContent f, mimeType = mime,
                 filename = safeFilename (if fileName f = [] then ''upload.'' @ extensionFromMime mime
                         else fileName f)\<rparr>) = Inr (flds', Some img)"
          by simp
        from 3(2)[OF nf small Inr rec] nf Inr show ?thesis
          by auto
      qed
    qed
  qed
qed

lemma parseBody_gate:
  assumes "parseBody ev = Inr (fv, Some img)"
  shows "\<exists>entries f. formData ev = Some entries \<and> (''photoFile'', FormFile f) \<in> set entries \<and>
           sanitizeImageMimeType (fileType f) = Inr (mimeType img)"
proof (cases "includes_str (getHeader ev ''content-type'') ''multipart/form-data''")
  case True
  show ?thesis
  proof (cases "formData ev")
    case None
    with assms True show ?thesis by (simp add: parseBody_def Let_def)
  next
    case (Some entries)
    show ?thesis
    proof (cases "parseEntries entries (\<lambda>k. Absent) None")
      case (Inl e)
      with assms True Some show ?thesis by (simp add: parseBody_def Let_def)
    next
      case (Inr p)
      obtain flds pf where p: "p = (flds, pf)" by (cases p)
      with assms True Some Inr have "pf = Some img"
        by (simp add: parseBody_def Let_def)
      with Inr p have "parseEntries entries (\<lambda>k. Absent) None = Inr (flds, Some img)" by simp
      from parseEntries_gate[OF this] Some show ?thesis by auto
    qed
  qed
next
  case False
  with assms show ?thesis
    by (auto simp: parseBody_def Let_def split: if_splits option.splits)
qed

lemma parseEntries_error:
  "parseEntries entries flds pf = Inl e \<Longrightarrow>
     e = SubmissionError ''Uploaded image is too large (max 8MB).'' 413 \<or>
     e = SubmissionError ''Only JPEG, PNG, WEBP, GIF, and AVIF images are allowed.'' 400"
proof (induction entries flds pf rule: parseEntries.induct)
  case (1 flds photoFile)
  then show ?case by simp
next
  case (2 key v rest flds photoFile)
  from 2(2) have "parseEntries rest (flds(key := Str v)) photoFile = Inl e"
    by (simp del: fun_upd_apply)
  from 2(1)[OF this] show ?case .
next
  case (3 key f rest flds photoFile)
  show ?case
  proof (cases "key \<noteq> ''photoFile'' \<or> length (fileContent f) = 0")
    case True
    with 3(3) have "parseEntries rest flds photoFile = Inl e" by simp
    from 3(1)[OF True this] show ?thesis .
  next
    case False
    note nf = False
    show ?thesis
    proof (cases "length (fileContent f) > MAX_IMAGE_BYTES")
      case True
      with nf 3(3) show ?thesis by simp
    next
      case False
      note small = False
      show ?thesis
      proof (cases "sanitizeImageMimeType (fileType f)")
        case (Inl e')
        with nf small 3(3) have "e = e'" by simp
        with sanitize_error[OF Inl] show ?thesis by simp
      next
        case (Inr mime)
        with nf small 3(3) have
          "parseEntries rest flds (Some \<lparr>buffer = fileContent f, mimeType = mime,
                 filename = safeFilename (if fileName f = [] then ''upload.'' @ extensionFromMime mime
                         else fileName f)\<rparr>) = Inl e"
          by simp
        from 3(2)[OF nf small Inr this] show ?thesis .
      qed
    qed
  qed
qed

lemma parseBody_error:
  assumes "parseBody ev = Inl e"
  shows "e = OtherError \<or>
     e = SubmissionError ''Uploaded image is too large (max 8MB).'' 413 \<or>
     e = SubmissionError ''Only JPEG, PNG, WEBP, GIF, and AVIF images are allowed.'' 400"
proof (cases "includes_str (getHeader ev ''content-type'') ''multipart/form-data''")
  case True
  show ?thesis
  proof (cases "formData ev")
    case None
    with assms True show ?thesis by (simp add: parseBody_def Let_def)
  next
    case (Some parsed)
    show ?thesis
    proof (cases "parseEntries parsed (\<lambda>k. Absent) None")
      case (Inl e')
      with assms True Some have "e = e'" by (simp add: parseBody_def Let_def)
      with parseEntries_error[OF Inl] show ?thesis by simp
    next
      case (Inr p)
      with assms True Some show ?thesis
        by (cases p) (simp add: parseBody_def Let_def)
    qed
  qed
next
  case False
  with assms show ?thesis
    by (auto simp: parseBody_def Let_def split: if_splits option.splits)
qed

lemma parseEntries_skips_empty:
  "parseEntries (filter (\<lambda>e. \<not> emptyFile e) entries) flds pf = parseEntries entries flds pf"
proof (induction entries flds pf rule: parseEntries.induct)
  case (1 flds photoFile)
  show ?case by simp
next
  case (2 key v rest flds photoFile)
  then show ?case by (simp del: fun_upd_apply)
next
  case (3 key f rest flds photoFile)
  show ?case
  proof (cases "fileContent f = []")
    case True
    with 3(1) show ?thesis by simp
  next
    case False
    note ne = False
    show ?thesis
    proof (cases "key \<noteq> ''photoFile''")
      case True
      with 3(1) ne show ?thesis by simp
    next
      case False
      note k = False
      show ?thesis
      proof (cases "length (fileContent f) > MAX_IMAGE_BYTES")
        case True
        with ne k show ?thesis by simp
      next
        case False
        note small = False
        show ?thesis
        proof (cases "sanitizeImageMimeType (fileType f)")
          case (Inl e)
          with ne k small show ?thesis by simp
        next
          case (Inr mime)
          from ne k have c: "\<not> (key \<noteq> ''photoFile'' \<or> length (fileContent f) = 0)" by simp
          from 3(2)[OF c small Inr] ne k small Inr show ?thesis by simp
        qed
      qed
    qed
  qed
qed

lemma parseEntries_no_file:
  "\<forall>f. (''photoFile'', FormFile f) \<in> set entries \<longrightarrow> fileContent f = [] \<Longrightarrow>
     \<exists>flds'. parseEntries entries flds pf = Inr (flds', pf)"
proof (induction entries flds pf rule: parseEntries.induct)
  case (1 flds photoFile)
  show ?case by simp
next
  case (2 key v rest flds photoFile)
  from 2(2) have "\<forall>f. (''photoFile'', FormFile f) \<in> set rest \<longrightarrow> fileContent f = []"
    by (meson list.set_intros(2))
  from 2(1)[OF this] show ?case by (simp del: fun_upd_apply)
next
  case (3 key f rest flds photoFile)
  have skip: "key \<noteq> ''photoFile'' \<or> length (fileContent f) = 0"
  proof (cases "key = ''photoFile''")
    case True
    then have "(''photoFile'', FormFile f) \<in> set ((key, FormFile f) # rest)"
      by (meson list.set_intros(1))
    with 3(3) show ?thesis by blast
  next
    case False
    then show ?thesis by blast
  qed
  from 3(3) have "\<forall>f. (''photoFile'', FormFile f) \<in> set rest \<longrightarrow> fileContent f = []"
    by (meson list.set_intros(2))
  from 3(1)[OF skip this] obtain flds' where
    "parseEntries rest flds photoFile = Inr (flds', photoFile)" by blast
  moreover from skip have
    "parseEntries ((key, FormFile f) # rest) flds photoFile = parseEntries rest flds photoFile"
    by (simp only: parseEntries.simps if_True)
  ultimately have
    "parseEntries ((key, FormFile f) # rest) flds photoFile = Inr (flds', photoFile)"
    by (simp only:)
  then show ?case by blast
qed

lemma getHeader_formData: "getHeader (ev\<lparr>formData := x\<rparr>) h = getHeader ev h"
  by (simp add: getHeader_def cong: option.case_cong if_cong)

lemma parseBody_skips_empty:
  "parseBody (ev\<lparr>formData := Some (filter (\<lambda>e. \<not> emptyFile e) entries)\<rparr>) =
   parseBody (ev\<lparr>formData := Some entries\<rparr>)"
  by (simp add: parseBody_def Let_def getHeader_formData parseEntries_skips_empty cong: if_cong)

lemma upload_props:
  assumes "uploadToCloudinary w img cfg = (ds, r)"
  shows "ds = [CloudinaryUpload img cfg]"
    and "r = Inl e \<Longrightarrow> knownError e"
    and "r = Inr secure \<Longrightarrow> cloudinaryPost w img cfg = CloudinaryOk (Some (Some secure)) \<and> secure \<noteq> []"
  using assms
  by (auto simp: uploadToCloudinary_def knownError_def
      split: cloudinary_reply.splits option.splits if_splits)

lemma resolve_props:
  assumes "resolveCanonicalPhotoUrl w u pf cfg = Some (cs, res)"
  shows "filter isStoreWrite cs = []"
    and "res = Inl e \<Longrightarrow> knownError e"
    and "res = Inr secure \<Longrightarrow>
           \<exists>pre img. cs = pre @ [CloudinaryUpload img cfg] \<and>
             cloudinaryPost w img cfg = CloudinaryOk (Some (Some secure)) \<and> secure \<noteq> []"
proof -
  have all: "filter isStoreWrite cs = [] \<and> (\<forall>e. res = Inl e \<longrightarrow> knownError e) \<and>
     (\<forall>secure. res = Inr secure \<longrightarrow>
           (\<exists>pre img. cs = pre @ [CloudinaryUpload img cfg] \<and>
             cloudinaryPost w img cfg = CloudinaryOk (Some (Some secure)) \<and> secure \<noteq> []))"
  proof (cases "(case pf of None \<Rightarrow> False | Some f \<Rightarrow> buffer f \<noteq> [])")
    case True
    with assms have up: "uploadToCloudinary w (the pf) cfg = (cs, res)"
      by (simp add: resolveCanonicalPhotoUrl_def)
    from upload_props(1)[OF up] have cs: "cs = [] @ [CloudinaryUpload (the pf) cfg]" by simp
    have "\<forall>secure. res = Inr secure \<longrightarrow>
           (\<exists>pre img. cs = pre @ [CloudinaryUpload img cfg] \<and>
             cloudinaryPost w img cfg = CloudinaryOk (Some (Some secure)) \<and> secure \<noteq> [])"
      using upload_props(3)[OF up] cs by blast
    moreover have "\<forall>e. res = Inl e \<longrightarrow> knownError e"
      using upload_props(2)[OF up] by blast
    moreover from cs have "filter isStoreWrite cs = []" by simp
    ultimately show ?thesis by blast
  next
    case False
    note nofile = False
    show ?thesis
    proof (cases "fetchImageFromUrl w u")
      case None
      with assms nofile show ?thesis
        by (simp add: resolveCanonicalPhotoUrl_def)
    next
      case (Some p)
      obtain ds x where p: "p = (ds, x)" by (cases p)
      from Some p have f: "fetchImageFromUrl w u = Some (ds, x)" by simp
      note fp = fetchImageFromUrl_props[OF f]
      show ?thesis
      proof (cases x)
        case (Inl e)
        with assms nofile f have "cs = ds" "res = Inl e"
          by (simp_all add: resolveCanonicalPhotoUrl_def)
        with fp Inl show ?thesis
          by (auto intro: pipelineError_known)
      next
        case (Inr remoteImage)
        obtain es r where up: "uploadToCloudinary w remoteImage cfg = (es, r)"
          by (cases "uploadToCloudinary w remoteImage cfg")
        with assms nofile f Inr have cs: "cs = ds @ es" and res: "res = r"
          by (simp_all add: resolveCanonicalPhotoUrl_def)
        from upload_props(1)[OF up] cs have cs': "cs = ds @ [CloudinaryUpload remoteImage cfg]"
          by simp
        have "\<forall>secure. res = Inr secure \<longrightarrow>
           (\<exists>pre img. cs = pre @ [CloudinaryUpload img cfg] \<and>
             cloudinaryPost w img cfg = CloudinaryOk (Some (Some secure)) \<and> secure \<noteq> [])"
          using upload_props(3)[OF up] cs' res by blast
        moreover have "\<forall>e. res = Inl e \<longrightarrow> knownError e"
          using upload_props(2)[OF up] res by blast
        moreover from cs' fp have "filter isStoreWrite cs = []" by simp
        ultimately show ?thesis by blast
      qed
    qed
  qed
  from all show "filter isStoreWrite cs = []" by blast
  from all show "res = Inl e \<Longrightarrow> knownError e" by blast
  from all show "res = Inr secure \<Longrightarrow>
           \<exists>pre img. cs = pre @ [CloudinaryUpload img cfg] \<and>
             cloudinaryPost w img cfg = CloudinaryOk (Some (Some secure)) \<and> secure \<noteq> []" by blast
qed

lemma getCloudinaryConfig_error:
  "getCloudinaryConfig w = Inl e \<Longrightarrow> e = SubmissionError ''Missing Cloudinary configuration.'' 500"
  by (simp add: getCloudinaryConfig_def Let_def split: if_splits)

lemma saveSubmission_props:
  assumes "saveSubmission w ev flds c h secure = (ds, answer)"
  shows "\<exists>p. ds = [AirtablePost p] \<and> Photo_URL p = secure \<and> Status p = ''Pending''"
    and "statusCode answer \<in> {200, 303, 500}"
  using assms
  by (auto simp: saveSubmission_def Let_def plainReply_def thanksRedirect_def
      split: airtable_reply.splits if_splits)

lemma submit_cases:
  assumes "submit w ev flds pf = Some (cs, res)"
  obtains
    (honeypot) "truthy (flds ''website'')" "cs = []" "res = Inr thanksRedirect"
  | (invalid) m where "cs = []" "res = Inr (plainReply 400 m)"
      "cleanText (flds ''catName'') = [] \<or> cleanText (flds ''humanName'') = []
       \<or> (pf = None \<and> cleanText (flds ''photoUrl'') = [])"
      "m = ''catName and humanName are required.'' \<or> m = ''Provide either photoFile or photoUrl.''"
  | (config) e where "getCloudinaryConfig w = Inl e" "cs = []"
      "res = Inr (plainReply 500 ''Missing Cloudinary configuration.'')"
  | (failed) cfg e where "getCloudinaryConfig w = Inr cfg"
      "resolveCanonicalPhotoUrl w (cleanText (flds ''photoUrl'')) pf cfg = Some (cs, Inl e)"
      "res = Inr (errorReply e)"
      "\<not> (cleanText (flds ''catName'') = [] \<or> cleanText (flds ''humanName'') = []
       \<or> (pf = None \<and> cleanText (flds ''photoUrl'') = []))"
  | (saved) cfg ds secure es answer where "getCloudinaryConfig w = Inr cfg"
      "resolveCanonicalPhotoUrl w (cleanText (flds ''photoUrl'')) pf cfg = Some (ds, Inr secure)"
      "saveSubmission w ev flds (cleanText (flds ''catName'')) (cleanText (flds ''humanName''))
         secure = (es, answer)"
      "cs = ds @ es" "res = Inr answer"
      "\<not> (cleanText (flds ''catName'') = [] \<or> cleanText (flds ''humanName'') = []
       \<or> (pf = None \<and> cleanText (flds ''photoUrl'') = []))"
proof (cases "truthy (flds ''website'')")
  case True
  with assms honeypot show ?thesis by (simp add: submit_def)
next
  case False
  note nh = False
  show ?thesis
  proof (cases "cleanText (flds ''catName'') = [] \<or> cleanText (flds ''humanName'') = []
       \<or> (pf = None \<and> cleanText (flds ''photoUrl'') = [])")
    case True
    with assms nh have "cs = []"
      "\<exists>m. res = Inr (plainReply 400 m) \<and> (m = ''catName and humanName are required.''
          \<or> m = ''Provide either photoFile or photoUrl.'')"
      by (auto simp: submit_def Let_def split: if_splits)
    with True invalid show ?thesis by blast
  next
    case False
    note valid = False
    show ?thesis
    proof (cases "getCloudinaryConfig w")
      case (Inl e)
      with getCloudinaryConfig_error[OF Inl] assms nh valid
      have "cs = []" "res = Inr (plainReply 500 ''Missing Cloudinary configuration.'')"
        by (auto simp: submit_def Let_def)
      with Inl config show ?thesis by blast
    next
      case (Inr cfg)
      note cfg = Inr
      show ?thesis
      proof (cases "resolveCanonicalPhotoUrl w (cleanText (flds ''photoUrl'')) pf cfg")
        case None
        with assms nh valid cfg show ?thesis
          by (auto simp: submit_def Let_def)
      next
        case (Some p)
        obtain ds x where p: "p = (ds, x)" by (cases p)
        show ?thesis
        proof (cases x)
          case (Inl e)
          with assms nh valid cfg Some p have "cs = ds" "res = Inr (errorReply e)"
            by (cases e; auto simp: submit_def Let_def)+
          with cfg Some p Inl valid failed show ?thesis by blast
        next
          case (Inr secure)
          obtain es answer where sv: "saveSubmission w ev flds (cleanText (flds ''catName''))
            (cleanText (flds ''humanName'')) secure = (es, answer)"
            by (cases "saveSubmission w ev flds (cleanText (flds ''catName''))
            (cleanText (flds ''humanName'')) secure")
          with assms nh valid cfg Some p Inr have "cs = ds @ es" "res = Inr answer"
            by (auto simp: submit_def Let_def)
          with cfg Some p Inr sv valid saved show ?thesis by blast
        qed
      qed
    qed
  qed
qed

lemma saveSubmission_formData:
  "saveSubmission w (ev\<lparr>formData := x\<rparr>) flds c h u = saveSubmission w ev flds c h u"
  unfolding saveSubmission_def getHeader_formData by (rule refl)

lemma submit_formData: "submit w (ev\<lparr>formData := x\<rparr>) flds pf = submit w ev flds pf"
  unfolding submit_def saveSubmission_formData by (rule refl)

lemma resolve_without_file:
  "resolveCanonicalPhotoUrl w u None cfg = Some (cs, x) \<Longrightarrow>
     \<exists>ds y rest. fetchImageFromUrl w u = Some (ds, y) \<and> cs = ds @ rest"
  by (auto simp: resolveCanonicalPhotoUrl_def split: option.splits sum.splits prod.splits)

lemma submit_calls_resolve:
  assumes "submit w ev flds pf = Some (cs, res)"
    and "\<not> truthy (flds ''website'')"
    and "cleanText (flds ''catName'') \<noteq> []" and "cleanText (flds ''humanName'') \<noteq> []"
    and "\<not> (pf = None \<and> cleanText (flds ''photoUrl'') = [])"
    and "getCloudinaryConfig w = Inr cfg"
  shows "\<exists>ds x rest. resolveCanonicalPhotoUrl w (cleanText (flds ''photoUrl'')) pf cfg = Some (ds, x)
           \<and> cs = ds @ rest"
proof (cases "resolveCanonicalPhotoUrl w (cleanText (flds ''photoUrl'')) pf cfg")
  case None
  with assms show ?thesis by (simp add: submit_def Let_def)
next
  case (Some p)
  obtain ds x where p: "p = (ds, x)" by (cases p)
  show ?thesis
  proof (cases x)
    case (Inl e)
    with assms Some p show ?thesis
      by (cases e) (auto simp: submit_def Let_def)
  next
    case (Inr url)
    with assms Some p show ?thesis
      by (auto simp: submit_def Let_def split: prod.splits)
  qed
qed

lemma handler_cases:
  assumes "handler w ev = Some (cs, res)"
  obtains
    (notPost) "httpMethod ev \<noteq> ''POST''" "cs = []"
      "res = Inr (plainReply 405 ''Method Not Allowed'')"
  | (airtable) "cs = []" "res = Inr (plainReply 500 ''Missing Airtable configuration.'')"
  | (unparsed) e where "parseBody ev = Inl e" "cs = []" "res = Inr (parseErrorReply e)"
  | (nullfields) pf where "parseBody ev = Inr (NullFields, pf)" "cs = []" "res = Inl OtherError"
  | (parsed) flds pf where "httpMethod ev = ''POST''"
      "envSet (AIRTABLE_TOKEN (processEnv w))" "envSet (AIRTABLE_BASE_ID (processEnv w))"
      "parseBody ev = Inr (Fields flds, pf)" "submit w ev flds pf = Some (cs, res)"
proof (cases "httpMethod ev \<noteq> ''POST''")
  case True
  with assms notPost show ?thesis by (simp add: handler_def)
next
  case False
  note post = False
  show ?thesis
  proof (cases "envSet (AIRTABLE_TOKEN (processEnv w)) \<and> envSet (AIRTABLE_BASE_ID (processEnv w))")
    case False
    with assms post airtable show ?thesis by (auto simp: handler_def)
  next
    case True
    note env = True
    show ?thesis
    proof (cases "parseBody ev")
      case (Inl e)
      with assms post env have "cs = []" "res = Inr (parseErrorReply e)"
        by (cases e; simp add: handler_def)+
      with Inl unparsed show ?thesis by blast
    next
      case (Inr p)
      obtain fv pf where p: "p = (fv, pf)" by (cases p)
      show ?thesis
      proof (cases fv)
        case NullFields
        with assms post env Inr p have "cs = []" "res = Inl OtherError"
          by (simp_all add: handler_def)
        with Inr p NullFields nullfields show ?thesis by blast
      next
        case (Fields flds)
        with assms post env Inr p have "submit w ev flds pf = Some (cs, res)"
          by (simp add: handler_def)
        with post env Inr p Fields parsed show ?thesis by blast
      qed
    qed
  qed
qed

lemma handler_parsed:
  assumes "httpMethod ev = ''POST''"
    and "envSet (AIRTABLE_TOKEN (processEnv w))" and "envSet (AIRTABLE_BASE_ID (processEnv w))"
    and "parseBody ev = Inr (Fields flds, photoFile)"
  shows "handler w ev = submit w ev flds photoFile"
  using assms by (simp add: handler_def)

lemma handler_skips_empty:
  "handler w (ev\<lparr>formData := Some (filter (\<lambda>e. \<not> emptyFile e) entries)\<rparr>) =
   handler w (ev\<lparr>formData := Some entries\<rparr>)"
  unfolding handler_def parseBody_skips_empty submit_formData by simp

lemma parsedFieldsE:
  assumes "(case parseBody ev of Inr (Fields flds, pf) \<Rightarrow> Q flds pf | _ \<Rightarrow> False)"
  obtains flds pf where "parseBody ev = Inr (Fields flds, pf)" "Q flds pf"
proof (cases "parseBody ev")
  case (Inl e)
  with assms show ?thesis by simp
next
  case (Inr p)
  obtain fv pf where p: "p = (fv, pf)" by (cases p)
  show ?thesis
  proof (cases fv)
    case NullFields
    with assms Inr p show ?thesis by simp
  next
    case (Fields flds)
    with assms Inr p that show ?thesis by simp
  qed
qed

section \<open>Lemmas about the kinds of failure\<close>




lemma not_allowedType_sanitize:
  "\<not> allowedType raw \<Longrightarrow>
     sanitizeImageMimeType raw =
       Inl (SubmissionError ''Only JPEG, PNG, WEBP, GIF, and AVIF images are allowed.'' 400)"
  unfolding allowedType_def sanitizeImageMimeType_def hd_split_on Let_def
    ALLOWED_IMAGE_MIME_TYPES_def submissionError_def
  by simp

lemma sanitize_allowedType:
  "sanitizeImageMimeType raw = Inr m \<Longrightarrow> allowedType raw"
  using not_allowedType_sanitize[of raw] by (cases "allowedType raw") auto




























lemma config_uploadConfigured:
  "getCloudinaryConfig w = Inr cfg \<Longrightarrow> uploadConfigured w"
  by (simp add: uploadConfigured_def getCloudinaryConfig_def Let_def split: if_splits)

















section \<open>Lemmas about the sort\<close>

lemma newestFirst_newer: "newestFirst dp cs = sorted_wrt (newer dp) cs"
  by (simp add: newestFirst_def newer_def[abs_def])

lemma insertSorted_set: "set (insertSorted cmp x ys) = insert x (set ys)"
  by (induction ys) auto

lemma arraySort_set: "set (arraySort cmp xs) = set xs"
  by (induction xs) (auto simp: arraySort_def insertSorted_set)

lemma insertSorted_sorted:
  assumes "\<forall>c \<in> set (x # ys). dp (cat_createdTime c) \<noteq> None"
    and "sorted_wrt (newer dp) ys"
  shows "sorted_wrt (newer dp) (insertSorted (compareCreated dp) x ys)"
  using assms
proof (induction ys)
  case Nil
  then show ?case by simp
next
  case (Cons y ys)
  from Cons.prems(1) obtain tx ty where
    t: "dp (cat_createdTime x) = Some tx" "dp (cat_createdTime y) = Some ty"
    by auto
  show ?case
  proof (cases "compareCreated dp x y \<le> 0")
    case True
    with t have xy: "ty \<le> tx" by (simp add: compareCreated_def)
    have "\<forall>z \<in> set (y # ys). newer dp x z"
    proof
      fix z assume z: "z \<in> set (y # ys)"
      with Cons.prems(1) obtain tz where tz: "dp (cat_createdTime z) = Some tz" by auto
      from z Cons.prems(2) have "z = y \<or> newer dp y z" by auto
      with t tz have "tz \<le> ty" by (auto simp: newer_def)
      with xy t tz show "newer dp x z" by (simp add: newer_def)
    qed
    with True Cons.prems(2) show ?thesis by simp
  next
    case False
    with t have yx: "tx \<le> ty" by (simp add: compareCreated_def)
    from Cons.prems have "sorted_wrt (newer dp) (insertSorted (compareCreated dp) x ys)"
      by (intro Cons.IH) auto
    moreover from yx t have "newer dp y x" by (simp add: newer_def)
    ultimately show ?thesis
      using False Cons.prems(2) by (auto simp: insertSorted_set)
  qed
qed

lemma arraySort_sorted:
  "\<forall>c \<in> set xs. dp (cat_createdTime c) \<noteq> None \<Longrightarrow>
     sorted_wrt (newer dp) (arraySort (compareCreated dp) xs)"
proof (induction xs)
  case Nil
  show ?case by (simp add: arraySort_def)
next
  case (Cons x xs)
  then have "sorted_wrt (newer dp) (arraySort (compareCreated dp) xs)" by simp
  moreover from Cons.prems have
    "\<forall>c \<in> set (x # arraySort (compareCreated dp) xs). dp (cat_createdTime c) \<noteq> None"
    by (simp add: arraySort_set)
  ultimately have "sorted_wrt (newer dp) (insertSorted (compareCreated dp) x (arraySort (compareCreated dp) xs))"
    by (intro insertSorted_sorted)
  then show ?case by (simp add: arraySort_def)
qed

section \<open>The properties\<close>

text \<open>
Claim C1 does not hold of the code. The validator does look at every address the
  resolver returned and refuses the name when \<open>isPrivateIpAddress\<close> holds of one of them:
  a name that resolves to \<^verbatim>\<open>93.184.216.34\<close> and \<^verbatim>\<open>10.0.0.5\<close> is refused. But
  a name that resolves to the public \<^verbatim>\<open>93.184.216.34\<close> and to \<^verbatim>\<open>fe90::1\<close>, an
  address of the private range \<^verbatim>\<open>fe80::/10\<close>, is accepted, and the fetcher goes on to
  request the URL: the classifier takes \<^verbatim>\<open>fe90::1\<close> for public.
\<close>

theorem mixed_public_and_link_local_accepted:
  "isIP ''rebind.example'' = 0
   \<and> dnsLookup (demoWorld 0 redirectResponse) 0 ''rebind.example'' =
       Some [''93.184.216.34'', ''fe90::1'']
   \<and> isIPv4 ''93.184.216.34'' \<and> \<not> privateV4 (ipv4Value ''93.184.216.34'')
   \<and> isIP ''fe90::1'' = 6 \<and> linkLocalV6 ''fe90::1'' \<and> \<not> isPrivateIpAddress ''fe90::1''
   \<and> assertPublicUrl (demoWorld 0 redirectResponse) 0 ''http://rebind.example/x.png'' =
       Inr ''http://rebind.example/x.png''
   \<and> fetchImageFromUrl (demoWorld 0 (pngResponse None (Reader twoChunks)))
        ''http://rebind.example/x.png'' =
       Some ([AssertPublicUrl ''http://rebind.example/x.png'',
              HttpGet ''http://rebind.example/x.png''],
             Inr \<lparr>buffer = [1, 2, 1, 2], mimeType = ''image/png'', filename = ''x.png''\<rparr>)
   \<and> assertPublicUrl (demoWorld 0 redirectResponse) 0 ''http://mixed.example/x.png'' =
       Inl (SubmissionError ''photoUrl cannot target local/internal hosts.'' 400)"
  by code_simp

text \<open>
Claim C2. \<open>MAX_REDIRECTS\<close> is 4. A chain of \<open>MAX_REDIRECTS + 1\<close> redirects fails with
  the too-many-redirects error; a chain of exactly \<open>MAX_REDIRECTS\<close> redirects followed by
  a 2xx response with an acceptable image succeeds with that image; and in every run the
  log is validated from hop 0 on: each request goes to the URL the validator returned for
  the current URL at that hop, and the first call is the validator on the cleaned input.
\<close>

theorem fetchImageFromUrl_redirect_budget:
  "MAX_REDIRECTS = 4
   \<and> (cleanText (Str urlString) \<noteq> [] \<and>
      redirectChain w 0 (Suc MAX_REDIRECTS) (cleanText (Str urlString)) = Some u'
     \<longrightarrow> (\<exists>cs. fetchImageFromUrl w urlString =
            Some (cs, Inl (SubmissionError ''photoUrl has too many redirects.'' 400))))
   \<and> (cleanText (Str urlString) \<noteq> [] \<and>
      redirectChain w 0 MAX_REDIRECTS (cleanText (Str urlString)) = Some u \<and>
      assertPublicUrl w MAX_REDIRECTS u = Inr v \<and>
      httpGet w MAX_REDIRECTS v = FetchResponse r \<and> 200 \<le> status r \<and> status r \<le> 299 \<and>
      readImage w v r = Some (ds, Inr img)
     \<longrightarrow> (\<exists>cs. fetchImageFromUrl w urlString = Some (cs, Inr img)))
   \<and> (fetchImageFromUrl w urlString = Some (cs, res)
     \<longrightarrow> validatedLog w 0 cs \<and>
         (cs \<noteq> [] \<longrightarrow> hd cs = AssertPublicUrl (cleanText (Str urlString))))"
proof (intro conjI impI)
  show "MAX_REDIRECTS = 4" by (simp add: MAX_REDIRECTS_def)
next
  assume a: "cleanText (Str urlString) \<noteq> [] \<and>
      redirectChain w 0 (Suc MAX_REDIRECTS) (cleanText (Str urlString)) = Some u'"
  with fetchLoop_chain[of w 0 "Suc MAX_REDIRECTS" "cleanText (Str urlString)" u']
  obtain cs where "fetchLoop w 0 (cleanText (Str urlString)) = logged cs (fetchLoop w (Suc MAX_REDIRECTS) u')"
    by auto
  with a show "\<exists>cs. fetchImageFromUrl w urlString =
            Some (cs, Inl (SubmissionError ''photoUrl has too many redirects.'' 400))"
    by (simp add: fetchImageFromUrl_def fetchLoop_exhausted)
next
  assume a: "cleanText (Str urlString) \<noteq> [] \<and>
      redirectChain w 0 MAX_REDIRECTS (cleanText (Str urlString)) = Some u \<and>
      assertPublicUrl w MAX_REDIRECTS u = Inr v \<and>
      httpGet w MAX_REDIRECTS v = FetchResponse r \<and> 200 \<le> status r \<and> status r \<le> 299 \<and>
      readImage w v r = Some (ds, Inr img)"
  with fetchLoop_chain[of w 0 MAX_REDIRECTS "cleanText (Str urlString)" u]
  obtain cs where "fetchLoop w 0 (cleanText (Str urlString)) = logged cs (fetchLoop w MAX_REDIRECTS u)"
    by auto
  moreover from a have "fetchLoop w MAX_REDIRECTS u = logged [AssertPublicUrl u, HttpGet v] (readImage w v r)"
    by (intro fetchLoop_terminal) auto
  ultimately show "\<exists>cs. fetchImageFromUrl w urlString = Some (cs, Inr img)"
    using a by (simp add: fetchImageFromUrl_def)
next
  assume a: "fetchImageFromUrl w urlString = Some (cs, res)"
  from fetchImageFromUrl_props[OF a] show "validatedLog w 0 cs" by blast
next
  assume a: "fetchImageFromUrl w urlString = Some (cs, res)" and ne: "cs \<noteq> []"
  from fetchImageFromUrl_props[OF a] ne
  show "hd cs = AssertPublicUrl (cleanText (Str urlString))" by blast
qed

theorem fetchImageFromUrl_redirect_budget_witness:
  "redirectChain (demoWorld 5 (pngResponse None (Reader twoChunks))) 0 (Suc MAX_REDIRECTS)
      (cleanText (Str ''http://cats.example/a.png'')) = Some ''http://cats.example/next.png''
   \<and> (\<exists>cs. fetchImageFromUrl (demoWorld 5 (pngResponse None (Reader twoChunks)))
             ''http://cats.example/a.png'' =
           Some (cs, Inl (SubmissionError ''photoUrl has too many redirects.'' 400)))
   \<and> redirectChain (demoWorld 4 (pngResponse None (Reader twoChunks))) 0 MAX_REDIRECTS
      (cleanText (Str ''http://cats.example/a.png'')) = Some ''http://cats.example/next.png''
   \<and> (\<exists>cs. fetchImageFromUrl (demoWorld 4 (pngResponse None (Reader twoChunks)))
             ''http://cats.example/a.png'' =
           Some (cs, Inr \<lparr>buffer = [1, 2, 1, 2], mimeType = ''image/png'',
                          filename = ''next.png''\<rparr>))
   \<and> fetchImageFromUrl (demoWorld 0 (pngResponse None (Reader twoChunks)))
        ''http://cats.example/a.png'' =
       Some ([AssertPublicUrl ''http://cats.example/a.png'', HttpGet ''http://cats.example/a.png''],
             Inr \<lparr>buffer = [1, 2, 1, 2], mimeType = ''image/png'', filename = ''a.png''\<rparr>)
   \<and> validatedLog (demoWorld 0 (pngResponse None (Reader twoChunks))) 0
        [AssertPublicUrl ''http://cats.example/a.png'', HttpGet ''http://cats.example/a.png'']"
proof -
  let ?u = "''http://cats.example/a.png''"
  let ?n = "''http://cats.example/next.png''"
  let ?r = "pngResponse None (Reader twoChunks)"
  let ?img = "\<lparr>buffer = [1, 2, 1, 2], mimeType = ''image/png'', filename = ''next.png''\<rparr>"
  let ?log = "[AssertPublicUrl ?u, HttpGet ?u]"
  let ?res = "Inr \<lparr>buffer = [1, 2, 1, 2], mimeType = ''image/png'', filename = ''a.png''\<rparr> :: exn + image"
  have c: "cleanText (Str ?u) \<noteq> []" by code_simp
  have c5: "redirectChain (demoWorld 5 ?r) 0 (Suc MAX_REDIRECTS) (cleanText (Str ?u)) = Some ?n"
    by code_simp
  have c4: "redirectChain (demoWorld 4 ?r) 0 MAX_REDIRECTS (cleanText (Str ?u)) = Some ?n"
    by code_simp
  have v4: "assertPublicUrl (demoWorld 4 ?r) MAX_REDIRECTS ?n = Inr ?n" by code_simp
  have g4: "httpGet (demoWorld 4 ?r) MAX_REDIRECTS ?n = FetchResponse ?r"
    by (simp add: demoWorld_def MAX_REDIRECTS_def)
  have s4: "200 \<le> status ?r \<and> status ?r \<le> 299" by code_simp
  have i4: "readImage (demoWorld 4 ?r) ?n ?r = Some ([], Inr ?img)" by code_simp
  have f0: "fetchImageFromUrl (demoWorld 0 ?r) ?u = Some (?log, ?res)" by code_simp
  from fetchImageFromUrl_redirect_budget[of ?u "demoWorld 5 ?r" ?n] c c5
  have 1: "\<exists>cs. fetchImageFromUrl (demoWorld 5 ?r) ?u =
           Some (cs, Inl (SubmissionError ''photoUrl has too many redirects.'' 400))"
    by blast
  from fetchImageFromUrl_redirect_budget[of ?u "demoWorld 4 ?r" _ ?n ?n ?r "[]" ?img] c c4 v4 g4 s4 i4
  have 2: "\<exists>cs. fetchImageFromUrl (demoWorld 4 ?r) ?u = Some (cs, Inr ?img)"
    by blast
  from fetchImageFromUrl_redirect_budget[of ?u "demoWorld 0 ?r" _ _ _ _ _ _ ?log ?res] f0
  have 3: "validatedLog (demoWorld 0 ?r) 0 ?log"
    by blast
  from c5 c4 1 2 3 f0 show ?thesis by blast
qed

text \<open>
Claim C3. When the reads \<open>0..n\<close> of a body stream deliver chunks and the bytes
  delivered first exceed \<open>maxBytes\<close> with read \<open>n\<close>, the reader returns the too-large
  error (status 413) after exactly \<open>n + 1\<close> reads and has cancelled the stream. A stream
  that ends within the limit is returned whole, uncancelled. A body without a reader is
  read whole and its length checked afterwards. Whatever is returned is at most
  \<open>maxBytes\<close> long. In the fetcher the same happens for a response whose
  \<^verbatim>\<open>content-length\<close> is absent or is a decimal number within the limit: the read is
  cancelled and the fetch fails with the too-large error.
\<close>

theorem readResponseWithLimit_enforces_limit:
  "(body r = Reader rd \<and> (\<forall>j. j \<le> n \<longrightarrow> isChunk (rd j)) \<and>
      length (received rd 0 n) \<le> maxBytes \<and> maxBytes < length (received rd 0 (Suc n))
     \<longrightarrow> readResponseWithLimit r maxBytes =
           Some \<lparr>outcome = Inl (SubmissionError ''Image is too large (max 8MB).'' 413),
                 reads = Suc n, cancelled = True\<rparr>)
   \<and> (body r = Reader rd \<and> (\<forall>j. j < n \<longrightarrow> isChunk (rd j)) \<and> rd n = ReadDone \<and>
      length (received rd 0 n) \<le> maxBytes
     \<longrightarrow> readResponseWithLimit r maxBytes =
           Some \<lparr>outcome = Inr (received rd 0 n), reads = Suc n, cancelled = False\<rparr>)
   \<and> (body r = NoReader (Some whole)
     \<longrightarrow> readResponseWithLimit r maxBytes =
           Some \<lparr>outcome = (if length whole > maxBytes
                             then Inl (SubmissionError ''Image is too large (max 8MB).'' 413)
                             else Inr whole),
                 reads = 0, cancelled = False\<rparr>)
   \<and> (readResponseWithLimit r maxBytes = Some ro \<and> outcome ro = Inr buf
     \<longrightarrow> length buf \<le> maxBytes \<and> \<not> cancelled ro)
   \<and> (body r = Reader rd \<and> (\<forall>j. j \<le> n \<longrightarrow> isChunk (rd j)) \<and>
      length (received rd 0 n) \<le> MAX_IMAGE_BYTES \<and>
      MAX_IMAGE_BYTES < length (received rd 0 (Suc n)) \<and>
      (contentLength r = None \<or>
       (\<exists>d. contentLength r = Some d \<and> list_all is_digit d \<and> decimal d \<le> MAX_IMAGE_BYTES)) \<and>
      sanitizeImageMimeType (case contentType r of None \<Rightarrow> [] | Some t \<Rightarrow> t) = Inr mime
     \<longrightarrow> readImage w u r =
           Some ([ReaderCancel], Inl (SubmissionError ''Image is too large (max 8MB).'' 413)))"
proof (intro conjI impI)
  assume a: "body r = Reader rd \<and> (\<forall>j. j \<le> n \<longrightarrow> isChunk (rd j)) \<and>
      length (received rd 0 n) \<le> maxBytes \<and> maxBytes < length (received rd 0 (Suc n))"
  then have "readLoop rd maxBytes 0 [] 0 =
           Some \<lparr>outcome = Inl imageTooLarge, reads = Suc n, cancelled = True\<rparr>"
    by (intro readLoop_crosses) auto
  with a show "readResponseWithLimit r maxBytes =
           Some \<lparr>outcome = Inl (SubmissionError ''Image is too large (max 8MB).'' 413),
                 reads = Suc n, cancelled = True\<rparr>"
    by (simp add: readResponseWithLimit_def imageTooLarge_def)
next
  assume a: "body r = Reader rd \<and> (\<forall>j. j < n \<longrightarrow> isChunk (rd j)) \<and> rd n = ReadDone \<and>
      length (received rd 0 n) \<le> maxBytes"
  then have "readLoop rd maxBytes 0 [] 0 =
           Some \<lparr>outcome = Inr (concat [] @ received rd 0 n), reads = Suc n, cancelled = False\<rparr>"
    by (intro readLoop_done) auto
  with a show "readResponseWithLimit r maxBytes =
           Some \<lparr>outcome = Inr (received rd 0 n), reads = Suc n, cancelled = False\<rparr>"
    by (simp add: readResponseWithLimit_def)
next
  assume "body r = NoReader (Some whole)"
  then show "readResponseWithLimit r maxBytes =
           Some \<lparr>outcome = (if length whole > maxBytes
                             then Inl (SubmissionError ''Image is too large (max 8MB).'' 413)
                             else Inr whole),
                 reads = 0, cancelled = False\<rparr>"
    by (simp add: readResponseWithLimit_def imageTooLarge_def)
next
  assume a: "readResponseWithLimit r maxBytes = Some ro \<and> outcome ro = Inr buf"
  then have ro: "readResponseWithLimit r maxBytes = Some ro" and b: "outcome ro = Inr buf"
    by blast+
  from readResponseWithLimit_outcome(3)[OF ro b] show "length buf \<le> maxBytes" .
  from readResponseWithLimit_outcome(1)[OF ro] b show "\<not> cancelled ro" by auto
next
  assume a: "body r = Reader rd \<and> (\<forall>j. j \<le> n \<longrightarrow> isChunk (rd j)) \<and>
      length (received rd 0 n) \<le> MAX_IMAGE_BYTES \<and>
      MAX_IMAGE_BYTES < length (received rd 0 (Suc n)) \<and>
      (contentLength r = None \<or>
       (\<exists>d. contentLength r = Some d \<and> list_all is_digit d \<and> decimal d \<le> MAX_IMAGE_BYTES)) \<and>
      sanitizeImageMimeType (case contentType r of None \<Rightarrow> [] | Some t \<Rightarrow> t) = Inr mime"
  then have "readLoop rd MAX_IMAGE_BYTES 0 [] 0 =
           Some \<lparr>outcome = Inl imageTooLarge, reads = Suc n, cancelled = True\<rparr>"
    by (intro readLoop_crosses) auto
  with a have rd: "readResponseWithLimit r MAX_IMAGE_BYTES =
           Some \<lparr>outcome = Inl imageTooLarge, reads = Suc n, cancelled = True\<rparr>"
    by (simp add: readResponseWithLimit_def)
  have zero: "jsNumber ''0'' = Some 0" by code_simp
  from a have "contentLength r = None \<or>
       (\<exists>d. contentLength r = Some d \<and> list_all is_digit d \<and> decimal d \<le> MAX_IMAGE_BYTES)"
    by blast
  then have small: "\<not> (case jsNumber (case contentLength r of None \<Rightarrow> ''0''
                               | Some h \<Rightarrow> if h = [] then ''0'' else h) of
                 None \<Rightarrow> False | Some n \<Rightarrow> n > int MAX_IMAGE_BYTES)"
  proof
    assume "contentLength r = None"
    then show ?thesis by (simp add: zero)
  next
    assume "\<exists>d. contentLength r = Some d \<and> list_all is_digit d \<and> decimal d \<le> MAX_IMAGE_BYTES"
    then obtain d where d: "contentLength r = Some d" "list_all is_digit d"
      "decimal d \<le> MAX_IMAGE_BYTES" by blast
    show ?thesis
    proof (cases "d = []")
      case True
      with d show ?thesis by (simp add: zero)
    next
      case False
      with d jsNumber_digits[OF d(2)] show ?thesis by simp
    qed
  qed
  from a have m: "sanitizeImageMimeType (case contentType r of None \<Rightarrow> [] | Some t \<Rightarrow> t) = Inr mime"
    by blast
  from small m rd show "readImage w u r =
           Some ([ReaderCancel], Inl (SubmissionError ''Image is too large (max 8MB).'' 413))"
    by (simp add: readImage_def Let_def imageTooLarge_def)
qed

theorem readResponseWithLimit_enforces_limit_witness:
  "readResponseWithLimit (pngResponse None (Reader twoChunks)) 3 =
     Some \<lparr>outcome = Inl (SubmissionError ''Image is too large (max 8MB).'' 413),
           reads = 2, cancelled = True\<rparr>
   \<and> readResponseWithLimit (pngResponse None (Reader twoChunks)) 4 =
     Some \<lparr>outcome = Inr [1, 2, 1, 2], reads = 3, cancelled = False\<rparr>
   \<and> readResponseWithLimit (pngResponse None (NoReader (Some [1, 2, 3, 4]))) 3 =
     Some \<lparr>outcome = Inl (SubmissionError ''Image is too large (max 8MB).'' 413),
           reads = 0, cancelled = False\<rparr>
   \<and> readImage (demoWorld 0 redirectResponse) ''http://cats.example/a.png''
       (pngResponse (Some ''10'') (Reader endless)) =
     Some ([ReaderCancel], Inl (SubmissionError ''Image is too large (max 8MB).'' 413))
   \<and> readImage (demoWorld 0 redirectResponse) ''http://cats.example/a.png''
       (pngResponse None (Reader endless)) =
     Some ([ReaderCancel], Inl (SubmissionError ''Image is too large (max 8MB).'' 413))"
proof -
  let ?two = "pngResponse None (Reader twoChunks)"
  let ?whole = "pngResponse None (NoReader (Some [1, 2, 3, 4]))"
  let ?w = "demoWorld 0 redirectResponse"
  let ?u = "''http://cats.example/a.png''"
  let ?large = "Inl (SubmissionError ''Image is too large (max 8MB).'' 413) :: exn + bytes"
  have b: "body ?two = Reader twoChunks" by (simp add: pngResponse_def)
  have ch: "\<forall>j. j \<le> 1 \<longrightarrow> isChunk (twoChunks j)" by (simp add: twoChunks_def)
  have ch2: "\<forall>j. j < 2 \<longrightarrow> isChunk (twoChunks j)" by (simp add: twoChunks_def)
  have d: "twoChunks 2 = ReadDone" by (simp add: twoChunks_def)
  have r1: "length (received twoChunks 0 1) \<le> 3" by code_simp
  have r2: "3 < length (received twoChunks 0 (Suc 1))" by code_simp
  have r3: "length (received twoChunks 0 2) \<le> 4" by code_simp
  have r4: "received twoChunks 0 2 = [1, 2, 1, 2]" by code_simp
  from readResponseWithLimit_enforces_limit[of ?two twoChunks 1 3] b ch r1 r2
  have "readResponseWithLimit ?two 3 = Some \<lparr>outcome = ?large, reads = Suc 1, cancelled = True\<rparr>"
    by blast
  then have 1: "readResponseWithLimit ?two 3 = Some \<lparr>outcome = ?large, reads = 2, cancelled = True\<rparr>"
    by simp
  from readResponseWithLimit_enforces_limit[of ?two twoChunks 2 4] b ch2 d r3
  have "readResponseWithLimit ?two 4 =
     Some \<lparr>outcome = Inr (received twoChunks 0 2), reads = Suc 2, cancelled = False\<rparr>"
    by blast
  with r4 have 2: "readResponseWithLimit ?two 4 =
     Some \<lparr>outcome = Inr [1, 2, 1, 2], reads = 3, cancelled = False\<rparr>"
    by simp
  have bw: "body ?whole = NoReader (Some [1, 2, 3, 4])" by (simp add: pngResponse_def)
  from readResponseWithLimit_enforces_limit[of ?whole _ _ 3 "[1, 2, 3, 4]"] bw
  have "readResponseWithLimit ?whole 3 =
     Some \<lparr>outcome = (if length [1, 2, 3, 4 :: 8 word] > 3 then ?large else Inr [1, 2, 3, 4]),
           reads = 0, cancelled = False\<rparr>"
    by blast
  then have 3: "readResponseWithLimit ?whole 3 =
     Some \<lparr>outcome = ?large, reads = 0, cancelled = False\<rparr>"
    by simp
  have e: "\<forall>j. j \<le> 1 \<longrightarrow> isChunk (endless j)" by (simp add: endless_def)
  have e1: "length (received endless 0 1) \<le> MAX_IMAGE_BYTES"
    by (simp add: received_def endless_def MAX_IMAGE_BYTES_def)
  have e2: "MAX_IMAGE_BYTES < length (received endless 0 (Suc 1))"
    by (simp add: received_def endless_def MAX_IMAGE_BYTES_def)
  let ?a = "pngResponse (Some ''10'') (Reader endless)"
  let ?b = "pngResponse None (Reader endless)"
  have ma: "sanitizeImageMimeType (case contentType ?a of None \<Rightarrow> [] | Some t \<Rightarrow> t) = Inr ''image/png''"
    by code_simp
  have mb: "sanitizeImageMimeType (case contentType ?b of None \<Rightarrow> [] | Some t \<Rightarrow> t) = Inr ''image/png''"
    by code_simp
  have dg: "contentLength ?a = Some ''10'' \<and> list_all is_digit ''10'' \<and> decimal ''10'' \<le> MAX_IMAGE_BYTES"
    by code_simp
  have pa: "body ?a = Reader endless" by (simp add: pngResponse_def)
  have pb: "body ?b = Reader endless" "contentLength ?b = None"
    by (simp_all add: pngResponse_def)
  from readResponseWithLimit_enforces_limit[of ?a endless 1 _ _ _ _ "''image/png''" ?w ?u] pa e e1 e2 ma dg
  have 4: "readImage ?w ?u ?a =
     Some ([ReaderCancel], Inl (SubmissionError ''Image is too large (max 8MB).'' 413))"
    by blast
  from readResponseWithLimit_enforces_limit[of ?b endless 1 _ _ _ _ "''image/png''" ?w ?u] pb e e1 e2 mb
  have 5: "readImage ?w ?u ?b =
     Some ([ReaderCancel], Inl (SubmissionError ''Image is too large (max 8MB).'' 413))"
    by blast
  from 1 2 3 4 5 show ?thesis by blast
qed

text \<open>
Claim C4. The MIME gate keeps the text before the first \<^verbatim>\<open>;\<close>, trims it and
  lower-cases it, and succeeds with the result exactly when it is one of
  \<^verbatim>\<open>image/jpeg\<close>, \<^verbatim>\<open>image/png\<close>, \<^verbatim>\<open>image/webp\<close>,
  \<^verbatim>\<open>image/gif\<close>, \<^verbatim>\<open>image/avif\<close>; otherwise it fails with the
  unsupported-type error. The type of an uploaded file that \<open>parseBody\<close> accepts and the
  type of an image the fetcher returns are both results of this one gate, on the declared
  file type and on the \<^verbatim>\<open>content-type\<close> header of a response.
\<close>

theorem sanitizeImageMimeType_allowlist:
  "sanitizeImageMimeType raw =
     (let t = toLowerCase (trim (takeWhile (\<lambda>c. c \<noteq> CHR '';'') raw)) in
      if t = ''image/jpeg'' \<or> t = ''image/png'' \<or> t = ''image/webp'' \<or> t = ''image/gif''
           \<or> t = ''image/avif''
      then Inr t
      else Inl (SubmissionError ''Only JPEG, PNG, WEBP, GIF, and AVIF images are allowed.'' 400))
   \<and> (parseBody ev = Inr (fv, Some img) \<longrightarrow>
        (\<exists>entries f. formData ev = Some entries \<and> (''photoFile'', FormFile f) \<in> set entries \<and>
           sanitizeImageMimeType (fileType f) = Inr (mimeType img)))
   \<and> (fetchImageFromUrl w urlString = Some (cs, Inr fetched) \<longrightarrow>
        (\<exists>hop v r. httpGet w hop v = FetchResponse r \<and>
           sanitizeImageMimeType (case contentType r of None \<Rightarrow> [] | Some t \<Rightarrow> t)
             = Inr (mimeType fetched)))"
proof (intro conjI impI)
  show "sanitizeImageMimeType raw =
     (let t = toLowerCase (trim (takeWhile (\<lambda>c. c \<noteq> CHR '';'') raw)) in
      if t = ''image/jpeg'' \<or> t = ''image/png'' \<or> t = ''image/webp'' \<or> t = ''image/gif''
           \<or> t = ''image/avif''
      then Inr t
      else Inl (SubmissionError ''Only JPEG, PNG, WEBP, GIF, and AVIF images are allowed.'' 400))"
    unfolding sanitizeImageMimeType_def hd_split_on Let_def ALLOWED_IMAGE_MIME_TYPES_def
      submissionError_def
    by simp
next
  assume "parseBody ev = Inr (fv, Some img)"
  then show "\<exists>entries f. formData ev = Some entries \<and> (''photoFile'', FormFile f) \<in> set entries \<and>
           sanitizeImageMimeType (fileType f) = Inr (mimeType img)"
    by (rule parseBody_gate)
next
  assume "fetchImageFromUrl w urlString = Some (cs, Inr fetched)"
  from fetchImageFromUrl_props[OF this]
  show "\<exists>hop v r. httpGet w hop v = FetchResponse r \<and>
           sanitizeImageMimeType (case contentType r of None \<Rightarrow> [] | Some t \<Rightarrow> t)
             = Inr (mimeType fetched)"
    by blast
qed

theorem sanitizeImageMimeType_allowlist_witness:
  "sanitizeImageMimeType '' IMAGE/Png; charset=binary'' = Inr ''image/png''
   \<and> sanitizeImageMimeType ''text/html'' =
       Inl (SubmissionError ''Only JPEG, PNG, WEBP, GIF, and AVIF images are allowed.'' 400)
   \<and> sanitizeImageMimeType ''image/svg+xml'' =
       Inl (SubmissionError ''Only JPEG, PNG, WEBP, GIF, and AVIF images are allowed.'' 400)
   \<and> (\<exists>fv img entries f.
         parseBody (demoEvent [(''photoFile'', FormFile (pngFile [1, 2, 3]))]) = Inr (fv, Some img) \<and>
         formData (demoEvent [(''photoFile'', FormFile (pngFile [1, 2, 3]))]) = Some entries \<and>
         (''photoFile'', FormFile f) \<in> set entries \<and>
         sanitizeImageMimeType (fileType f) = Inr (mimeType img))
   \<and> (\<exists>cs fetched hop v r.
         fetchImageFromUrl (demoWorld 0 (pngResponse None (Reader twoChunks)))
           ''http://cats.example/a.png'' = Some (cs, Inr fetched) \<and>
         httpGet (demoWorld 0 (pngResponse None (Reader twoChunks))) hop v = FetchResponse r \<and>
         sanitizeImageMimeType (case contentType r of None \<Rightarrow> [] | Some t \<Rightarrow> t)
           = Inr (mimeType fetched))"
proof -
  let ?ev = "demoEvent [(''photoFile'', FormFile (pngFile [1, 2, 3]))]"
  let ?w = "demoWorld 0 (pngResponse None (Reader twoChunks))"
  let ?u = "''http://cats.example/a.png''"
  let ?img = "\<lparr>buffer = [1, 2, 3], mimeType = ''image/png'', filename = ''tom.png''\<rparr>"
  let ?no = "Inl (SubmissionError ''Only JPEG, PNG, WEBP, GIF, and AVIF images are allowed.'' 400)
               :: exn + string"
  have t1: "toLowerCase (trim (takeWhile (\<lambda>c. c \<noteq> CHR '';'') '' IMAGE/Png; charset=binary''))
              = ''image/png''" by code_simp
  have t2: "toLowerCase (trim (takeWhile (\<lambda>c. c \<noteq> CHR '';'') ''text/html'')) = ''text/html''"
    by code_simp
  have t3: "toLowerCase (trim (takeWhile (\<lambda>c. c \<noteq> CHR '';'') ''image/svg+xml'')) = ''image/svg+xml''"
    by code_simp
  from sanitizeImageMimeType_allowlist[of "'' IMAGE/Png; charset=binary''"] t1
  have 1: "sanitizeImageMimeType '' IMAGE/Png; charset=binary'' = Inr ''image/png''"
    by simp
  from sanitizeImageMimeType_allowlist[of "''text/html''"] t2
  have 2: "sanitizeImageMimeType ''text/html'' = ?no"
    by simp
  from sanitizeImageMimeType_allowlist[of "''image/svg+xml''"] t3
  have 3: "sanitizeImageMimeType ''image/svg+xml'' = ?no"
    by simp
  have "map_sum id snd (parseBody ?ev) = Inr (Some ?img)" by code_simp
  then obtain fv where p: "parseBody ?ev = Inr (fv, Some ?img)"
    by (cases "parseBody ?ev") auto
  from sanitizeImageMimeType_allowlist[of _ ?ev fv ?img] p
  have 4: "\<exists>fv img entries f. parseBody ?ev = Inr (fv, Some img) \<and>
         formData ?ev = Some entries \<and> (''photoFile'', FormFile f) \<in> set entries \<and>
         sanitizeImageMimeType (fileType f) = Inr (mimeType img)"
    by blast
  have f: "fetchImageFromUrl ?w ?u =
       Some ([AssertPublicUrl ?u, HttpGet ?u],
             Inr \<lparr>buffer = [1, 2, 1, 2], mimeType = ''image/png'', filename = ''a.png''\<rparr>)"
    by code_simp
  from sanitizeImageMimeType_allowlist[of _ _ _ _ ?w ?u "[AssertPublicUrl ?u, HttpGet ?u]"
      "\<lparr>buffer = [1, 2, 1, 2], mimeType = ''image/png'', filename = ''a.png''\<rparr>"] f
  have 5: "\<exists>cs fetched hop v r. fetchImageFromUrl ?w ?u = Some (cs, Inr fetched) \<and>
         httpGet ?w hop v = FetchResponse r \<and>
         sanitizeImageMimeType (case contentType r of None \<Rightarrow> [] | Some t \<Rightarrow> t)
           = Inr (mimeType fetched)"
    by blast
  from 1 2 3 4 5 show ?thesis by blast
qed

text \<open>
Claim C5. In every run of the handler the log either holds no write to the store, or it
  ends with the upload followed by the one write, the upload was answered with a
  non-empty \<^verbatim>\<open>secure_url\<close>, and the record written carries that URL and the status
  \<^verbatim>\<open>Pending\<close>. When parsing fails, when a required field or the photo source is
  missing, or when the fetch or the upload fails, there is no write to the store.
\<close>

theorem store_write_only_after_canonical_url:
  assumes "handler w ev = Some (cs, res)"
  shows "(filter isStoreWrite cs = [] \<or>
          (\<exists>pre img cfg p. cs = pre @ [CloudinaryUpload img cfg, AirtablePost p] \<and>
             filter isStoreWrite pre = [] \<and>
             cloudinaryPost w img cfg = CloudinaryOk (Some (Some (Photo_URL p))) \<and>
             Photo_URL p \<noteq> [] \<and> Status p = ''Pending''))
       \<and> (\<forall>e. parseBody ev = Inl e \<longrightarrow> cs = [])
       \<and> (\<forall>flds pf. parseBody ev = Inr (Fields flds, pf) \<and>
             (cleanText (flds ''catName'') = [] \<or> cleanText (flds ''humanName'') = [] \<or>
              (pf = None \<and> cleanText (flds ''photoUrl'') = [])) \<longrightarrow> cs = [])
       \<and> (\<forall>flds pf cfg ds e. parseBody ev = Inr (Fields flds, pf) \<and>
             getCloudinaryConfig w = Inr cfg \<and>
             resolveCanonicalPhotoUrl w (cleanText (flds ''photoUrl'')) pf cfg = Some (ds, Inl e)
             \<longrightarrow> filter isStoreWrite cs = [])"
  using assms
proof (cases rule: handler_cases)
  case notPost
  then show ?thesis by simp
next
  case airtable
  then show ?thesis by simp
next
  case (unparsed e)
  then show ?thesis by simp
next
  case (nullfields pf)
  then show ?thesis by simp
next
  case (parsed flds pf)
  from parsed(5) show ?thesis
  proof (cases rule: submit_cases)
    case honeypot
    with parsed(4) show ?thesis by simp
  next
    case (invalid m)
    with parsed(4) show ?thesis by simp
  next
    case (config e)
    with parsed(4) show ?thesis by simp
  next
    case (failed cfg e)
    from resolve_props(1)[OF failed(2)] have none: "filter isStoreWrite cs = []" .
    with failed(4) parsed(4) show ?thesis by auto
  next
    case (saved cfg ds secure es answer)
    from saveSubmission_props(1)[OF saved(3)] obtain p where
      p: "es = [AirtablePost p]" "Photo_URL p = secure" "Status p = ''Pending''" by blast
    from resolve_props(3)[OF saved(2) refl] obtain pre img where
      u: "ds = pre @ [CloudinaryUpload img cfg]"
         "cloudinaryPost w img cfg = CloudinaryOk (Some (Some secure))" "secure \<noteq> []" by blast
    from resolve_props(1)[OF saved(2)] u(1) have pre: "filter isStoreWrite pre = []" by simp
    from saved(4) p u pre have shape:
      "\<exists>pre img cfg p. cs = pre @ [CloudinaryUpload img cfg, AirtablePost p] \<and>
             filter isStoreWrite pre = [] \<and>
             cloudinaryPost w img cfg = CloudinaryOk (Some (Some (Photo_URL p))) \<and>
             Photo_URL p \<noteq> [] \<and> Status p = ''Pending''"
      by auto
    from shape saved(6) parsed(4) saved(1,2) show ?thesis by auto
  qed
qed

theorem store_write_only_after_canonical_url_witness:
  "handler (demoWorld 0 (pngResponse None (Reader twoChunks))) (demoEvent tomByUrl) =
     Some ([AssertPublicUrl ''http://cats.example/a.png'', HttpGet ''http://cats.example/a.png'',
            CloudinaryUpload
              \<lparr>buffer = [1, 2, 1, 2], mimeType = ''image/png'', filename = ''a.png''\<rparr>
              \<lparr>cloudName = ''cloud'', apiKey = ''key'', apiSecret = ''secret'',
                folder = ''catsof-dev''\<rparr>,
            AirtablePost
              \<lparr>Cat_Name = ''Tom'', Human_Name = ''Ann'', Developer_URL = [],
                Photo_URL = ''https://res.example/cat.png'', Story = [],
                Status = ''Pending''\<rparr>],
           Inr thanksRedirect)
   \<and> (\<exists>pre img cfg p.
         fst (the (handler (demoWorld 0 (pngResponse None (Reader twoChunks))) (demoEvent tomByUrl)))
           = pre @ [CloudinaryUpload img cfg, AirtablePost p] \<and>
         filter isStoreWrite pre = [] \<and>
         cloudinaryPost (demoWorld 0 (pngResponse None (Reader twoChunks))) img cfg
           = CloudinaryOk (Some (Some (Photo_URL p))) \<and>
         Photo_URL p \<noteq> [] \<and> Status p = ''Pending'')
   \<and> handler (demoWorld 0 (pngResponse None (Reader twoChunks)))
        (demoEvent [(''photoFile'', FormFile htmlFile)]) =
       Some ([], Inr (plainReply 400 ''Only JPEG, PNG, WEBP, GIF, and AVIF images are allowed.''))
   \<and> snd (the (handler uploadRefused (demoEvent tomByUrl))) =
       Inr (plainReply 502 ''Image upload to Cloudinary failed.'')
   \<and> filter isStoreWrite (fst (the (handler uploadRefused (demoEvent tomByUrl)))) = []"
proof -
  let ?w = "demoWorld 0 (pngResponse None (Reader twoChunks))"
  let ?ev = "demoEvent tomByUrl"
  let ?html = "demoEvent [(''photoFile'', FormFile htmlFile)]"
  let ?cs = "[AssertPublicUrl ''http://cats.example/a.png'', HttpGet ''http://cats.example/a.png'',
            CloudinaryUpload
              \<lparr>buffer = [1, 2, 1, 2], mimeType = ''image/png'', filename = ''a.png''\<rparr>
              \<lparr>cloudName = ''cloud'', apiKey = ''key'', apiSecret = ''secret'',
                folder = ''catsof-dev''\<rparr>,
            AirtablePost
              \<lparr>Cat_Name = ''Tom'', Human_Name = ''Ann'', Developer_URL = [],
                Photo_URL = ''https://res.example/cat.png'', Story = [],
                Status = ''Pending''\<rparr>]"
  have h: "handler ?w ?ev = Some (?cs, Inr thanksRedirect)" by code_simp
  have ne: "filter isStoreWrite ?cs \<noteq> []" by simp
  from store_write_only_after_canonical_url[OF h] ne have 1: "\<exists>pre img cfg p. ?cs = pre @ [CloudinaryUpload img cfg, AirtablePost p] \<and>
         filter isStoreWrite pre = [] \<and>
         cloudinaryPost ?w img cfg = CloudinaryOk (Some (Some (Photo_URL p))) \<and>
         Photo_URL p \<noteq> [] \<and> Status p = ''Pending''"
    by blast
  have hh: "handler ?w ?html =
       Some ([], Inr (plainReply 400 ''Only JPEG, PNG, WEBP, GIF, and AVIF images are allowed.''))"
    by code_simp
  have hr: "handler uploadRefused ?ev =
       Some ([AssertPublicUrl ''http://cats.example/a.png'', HttpGet ''http://cats.example/a.png'',
            CloudinaryUpload
              \<lparr>buffer = [1, 2, 1, 2], mimeType = ''image/png'', filename = ''a.png''\<rparr>
              \<lparr>cloudName = ''cloud'', apiKey = ''key'', apiSecret = ''secret'',
                folder = ''catsof-dev''\<rparr>],
             Inr (plainReply 502 ''Image upload to Cloudinary failed.''))"
    by code_simp
  have "(case parseBody ?ev of
           Inr (Fields flds, pf) \<Rightarrow>
             (case getCloudinaryConfig uploadRefused of
                Inr cfg \<Rightarrow>
                  (case resolveCanonicalPhotoUrl uploadRefused (cleanText (flds ''photoUrl'')) pf cfg of
                     Some (ds, r) \<Rightarrow> isl r
                   | None \<Rightarrow> False)
              | Inl e \<Rightarrow> False)
         | _ \<Rightarrow> False)"
    by code_simp
  then obtain flds pf where p: "parseBody ?ev = Inr (Fields flds, pf)"
    and q: "(case getCloudinaryConfig uploadRefused of
                Inr cfg \<Rightarrow>
                  (case resolveCanonicalPhotoUrl uploadRefused (cleanText (flds ''photoUrl'')) pf cfg of
                     Some (ds, r) \<Rightarrow> isl r
                   | None \<Rightarrow> False)
              | Inl e \<Rightarrow> False)"
    by (rule parsedFieldsE)
  from q obtain cfg where c: "getCloudinaryConfig uploadRefused = Inr cfg"
    and q': "(case resolveCanonicalPhotoUrl uploadRefused (cleanText (flds ''photoUrl'')) pf cfg of
                     Some (ds, r) \<Rightarrow> isl r
                   | None \<Rightarrow> False)"
    by (cases "getCloudinaryConfig uploadRefused") auto
  from q' obtain ds e where
    r: "resolveCanonicalPhotoUrl uploadRefused (cleanText (flds ''photoUrl'')) pf cfg = Some (ds, Inl e)"
    by (cases "resolveCanonicalPhotoUrl uploadRefused (cleanText (flds ''photoUrl'')) pf cfg")
       (auto simp: isl_def)
  from p c r store_write_only_after_canonical_url[OF hr] have 2: "filter isStoreWrite
       [AssertPublicUrl ''http://cats.example/a.png'', HttpGet ''http://cats.example/a.png'',
            CloudinaryUpload
              \<lparr>buffer = [1, 2, 1, 2], mimeType = ''image/png'', filename = ''a.png''\<rparr>
              \<lparr>cloudName = ''cloud'', apiKey = ''key'', apiSecret = ''secret'',
                folder = ''catsof-dev''\<rparr>] = []"
    by blast
  from h 1 hh hr 2 show ?thesis by simp
qed




text \<open>
Claim C7 does not hold of the code. The IPv6 classifier decides by the prefix
  \<^verbatim>\<open>fe80:\<close> of the text, so an address of \<^verbatim>\<open>fe80::/10\<close> outside
  \<^verbatim>\<open>fe80::/16\<close>, such as \<^verbatim>\<open>fe90::1\<close> or \<^verbatim>\<open>febf::1\<close>, is a
  valid version 6 address that is classified public, while \<^verbatim>\<open>fe80::1\<close> is
  private; a host name that resolves to \<^verbatim>\<open>fe90::1\<close> passes the validator.
  The other ranges of the claim are classified as it says: an address of each of the
  version 4 blocks, the loopback \<^verbatim>\<open>::1\<close> and addresses of \<^verbatim>\<open>fc00::/7\<close> are private,
  and \<^verbatim>\<open>93.184.216.34\<close> is public.
\<close>

theorem link_local_beyond_fe80_not_private:
  "isIP ''fe90::1'' = 6 \<and> \<not> isPrivateIpAddress ''fe90::1''
   \<and> isIP ''febf::1'' = 6 \<and> \<not> isPrivateIpAddress ''febf::1''
   \<and> dnsLookup (demoWorld 0 redirectResponse) 0 ''linklocal.example'' = Some [''fe90::1'']
   \<and> assertPublicUrl (demoWorld 0 redirectResponse) 0 ''http://linklocal.example/x.png'' =
       Inr ''http://linklocal.example/x.png''
   \<and> list_all isPrivateIpAddress
        [''127.0.0.1'', ''10.1.2.3'', ''169.254.1.1'', ''172.20.0.1'', ''192.168.1.1'', ''0.1.2.3'',
         ''::1'', ''fd00::1'', ''fc00::1'', ''fe80::1'']
   \<and> \<not> isPrivateIpAddress ''93.184.216.34''"
  by code_simp

text \<open>
Claim C8. For a POST with the store configured whose body parses and whose honeypot
  field \<^verbatim>\<open>website\<close> is truthy, the handler answers 303 with
  \<^verbatim>\<open>Location: /thanks/\<close>, the answer of a stored submission, and makes no call at
  all: no fetch, no upload, no write to the store.
\<close>

theorem honeypot_silent_redirect:
  assumes "httpMethod ev = ''POST''"
    and "envSet (AIRTABLE_TOKEN (processEnv w))" and "envSet (AIRTABLE_BASE_ID (processEnv w))"
    and "parseBody ev = Inr (Fields flds, photoFile)"
    and "truthy (flds ''website'')"
  shows "handler w ev =
           Some ([], Inr \<lparr>statusCode = 303, replyHeaders = [(''Location'', ''/thanks/'')],
                          replyBody = TextBody []\<rparr>)"
  using assms(5) unfolding handler_parsed[OF assms(1-4)]
  by (simp add: submit_def thanksRedirect_def)

theorem honeypot_silent_redirect_witness:
  "handler (demoWorld 0 (pngResponse None (Reader twoChunks))) (demoEvent spam) =
     Some ([], Inr \<lparr>statusCode = 303, replyHeaders = [(''Location'', ''/thanks/'')],
                    replyBody = TextBody []\<rparr>)
   \<and> snd (the (handler (demoWorld 0 (pngResponse None (Reader twoChunks))) (demoEvent tomByUrl))) =
       Inr \<lparr>statusCode = 303, replyHeaders = [(''Location'', ''/thanks/'')],
            replyBody = TextBody []\<rparr>"
proof -
  let ?w = "demoWorld 0 (pngResponse None (Reader twoChunks))"
  have m: "httpMethod (demoEvent spam) = ''POST''" by (simp add: demoEvent_def)
  have t: "envSet (AIRTABLE_TOKEN (processEnv ?w))" "envSet (AIRTABLE_BASE_ID (processEnv ?w))"
    by code_simp+
  have "(case parseBody (demoEvent spam) of
           Inr (Fields flds, pf) \<Rightarrow> truthy (flds ''website'')
         | _ \<Rightarrow> False)"
    by code_simp
  then obtain flds pf where p: "parseBody (demoEvent spam) = Inr (Fields flds, pf)"
    and h: "truthy (flds ''website'')"
    by (rule parsedFieldsE)
  have s: "snd (the (handler ?w (demoEvent tomByUrl))) =
       Inr \<lparr>statusCode = 303, replyHeaders = [(''Location'', ''/thanks/'')],
            replyBody = TextBody []\<rparr>"
    by code_simp
  from honeypot_silent_redirect[OF m t p h] s show ?thesis by simp
qed

text \<open>
Claim C9. No row of the result has an empty photo URL, and with the store configured
  the result holds exactly the mapped rows that have one. For the rows the store returns,
  each with a creation time that \<^verbatim>\<open>Date.parse\<close> reads, the result is newest first.
\<close>

theorem cats_newest_first_when_dated:
  "(\<forall>c \<in> set (cats dateParse env reply). cat_photoUrl c \<noteq> [])
   \<and> (envSet (AIRTABLE_TOKEN env) \<and> envSet (AIRTABLE_BASE_ID env) \<longrightarrow>
        set (cats dateParse env (ListOk (Some records))) =
          {c \<in> toCat ` set records. cat_photoUrl c \<noteq> []})
   \<and> ((\<forall>r \<in> set records. dateParse (orElse (recordCreatedTime r) []) \<noteq> None) \<longrightarrow>
        newestFirst dateParse (cats dateParse env (ListOk (Some records))))"
proof (intro conjI impI)
  show "\<forall>c \<in> set (cats dateParse env reply). cat_photoUrl c \<noteq> []"
    by (auto simp: cats_def split: list_reply.splits option.splits)
next
  assume "envSet (AIRTABLE_TOKEN env) \<and> envSet (AIRTABLE_BASE_ID env)"
  then show "set (cats dateParse env (ListOk (Some records))) =
          {c \<in> toCat ` set records. cat_photoUrl c \<noteq> []}"
    by (auto simp: cats_def arraySort_set)
next
  assume a: "\<forall>r \<in> set records. dateParse (orElse (recordCreatedTime r) []) \<noteq> None"
  then have "\<forall>c \<in> set (map toCat records). dateParse (cat_createdTime c) \<noteq> None"
    by (simp add: toCat_def)
  from arraySort_sorted[OF this] have
    "sorted_wrt (newer dateParse)
       (filter (\<lambda>c. cat_photoUrl c \<noteq> []) (arraySort (compareCreated dateParse) (map toCat records)))"
    by (rule sorted_wrt_filter)
  then show "newestFirst dateParse (cats dateParse env (ListOk (Some records)))"
    by (simp add: cats_def newestFirst_newer)
qed

theorem cats_newest_first_when_dated_witness:
  "demoDateParse (orElse (recordCreatedTime (demoRecords ! 0)) []) = Some 1704067200000
   \<and> demoDateParse (orElse (recordCreatedTime (demoRecords ! 1)) []) = Some 1706745600000
   \<and> demoDateParse (orElse (recordCreatedTime (demoRecords ! 2)) []) = Some 1709251200000
   \<and> map cat_id (cats demoDateParse demoEnv (ListOk (Some demoRecords))) = [''recC'', ''recA'']
   \<and> newestFirst demoDateParse (cats demoDateParse demoEnv (ListOk (Some demoRecords)))
   \<and> set (cats demoDateParse demoEnv (ListOk (Some demoRecords))) =
       {c \<in> toCat ` set demoRecords. cat_photoUrl c \<noteq> []}
   \<and> cat_photoUrl (toCat (demoRecords ! 1)) = []"
proof -
  have h: "\<forall>r \<in> set demoRecords. demoDateParse (orElse (recordCreatedTime r) []) \<noteq> None"
    by code_simp
  have t: "demoDateParse (orElse (recordCreatedTime (demoRecords ! 0)) []) = Some 1704067200000"
    "demoDateParse (orElse (recordCreatedTime (demoRecords ! 1)) []) = Some 1706745600000"
    "demoDateParse (orElse (recordCreatedTime (demoRecords ! 2)) []) = Some 1709251200000"
    by code_simp+
  have v: "map cat_id (cats demoDateParse demoEnv (ListOk (Some demoRecords))) = [''recC'', ''recA'']"
    "cat_photoUrl (toCat (demoRecords ! 1)) = []"
    by code_simp+
  have e: "envSet (AIRTABLE_TOKEN demoEnv) \<and> envSet (AIRTABLE_BASE_ID demoEnv)" by code_simp
  from cats_newest_first_when_dated[where dateParse = demoDateParse and env = demoEnv and records = demoRecords] h
  have 1: "newestFirst demoDateParse (cats demoDateParse demoEnv (ListOk (Some demoRecords)))"
    by blast
  from cats_newest_first_when_dated[where dateParse = demoDateParse and env = demoEnv and records = demoRecords] e
  have 2: "set (cats demoDateParse demoEnv (ListOk (Some demoRecords))) =
       {c \<in> toCat ` set demoRecords. cat_photoUrl c \<noteq> []}"
    by blast
  from t v 1 2 show ?thesis by blast
qed

text \<open>
Claim C10. Files of size zero are passed over: the handler answers as it does for the
  form without them. For a multipart POST in which every file \<^verbatim>\<open>photoFile\<close> is
  empty, no file is kept; with an empty \<^verbatim>\<open>photoUrl\<close> the answer is the 400
  \<^verbatim>\<open>Provide either photoFile or photoUrl.\<close> and nothing is called; with a
  \<^verbatim>\<open>photoUrl\<close> the calls of the handler begin with the fetch of that URL.
\<close>

theorem empty_photoFile_ignored:
  "handler w (ev\<lparr>formData := Some (filter (\<lambda>e. \<not> emptyFile e) entries)\<rparr>) =
     handler w (ev\<lparr>formData := Some entries\<rparr>)
   \<and> (httpMethod ev = ''POST'' \<and> envSet (AIRTABLE_TOKEN (processEnv w)) \<and>
      envSet (AIRTABLE_BASE_ID (processEnv w)) \<and>
      includes_str (getHeader ev ''content-type'') ''multipart/form-data'' \<and>
      formData ev = Some entries \<and>
      (\<forall>f. (''photoFile'', FormFile f) \<in> set entries \<longrightarrow> fileContent f = []) \<and>
      parseBody ev = Inr (Fields flds, pf) \<and> \<not> truthy (flds ''website'') \<and>
      cleanText (flds ''catName'') \<noteq> [] \<and> cleanText (flds ''humanName'') \<noteq> []
     \<longrightarrow> pf = None \<and>
         (cleanText (flds ''photoUrl'') = [] \<longrightarrow>
            handler w ev =
              Some ([], Inr (plainReply 400 ''Provide either photoFile or photoUrl.''))) \<and>
         (cleanText (flds ''photoUrl'') \<noteq> [] \<and> getCloudinaryConfig w = Inr cfg \<and>
          handler w ev = Some (cs, res) \<longrightarrow>
            (\<exists>ds x rest. fetchImageFromUrl w (cleanText (flds ''photoUrl'')) = Some (ds, x) \<and>
               cs = ds @ rest)))"
proof (intro conjI impI)
  show "handler w (ev\<lparr>formData := Some (filter (\<lambda>e. \<not> emptyFile e) entries)\<rparr>) =
     handler w (ev\<lparr>formData := Some entries\<rparr>)"
    by (rule handler_skips_empty)
next
  assume a: "httpMethod ev = ''POST'' \<and> envSet (AIRTABLE_TOKEN (processEnv w)) \<and>
      envSet (AIRTABLE_BASE_ID (processEnv w)) \<and>
      includes_str (getHeader ev ''content-type'') ''multipart/form-data'' \<and>
      formData ev = Some entries \<and>
      (\<forall>f. (''photoFile'', FormFile f) \<in> set entries \<longrightarrow> fileContent f = []) \<and>
      parseBody ev = Inr (Fields flds, pf) \<and> \<not> truthy (flds ''website'') \<and>
      cleanText (flds ''catName'') \<noteq> [] \<and> cleanText (flds ''humanName'') \<noteq> []"
  then have "\<forall>f. (''photoFile'', FormFile f) \<in> set entries \<longrightarrow> fileContent f = []"
    by blast
  from parseEntries_no_file[OF this, of "\<lambda>k. Absent" None] obtain flds' where
    "parseEntries entries (\<lambda>k. Absent) None = Inr (flds', None)" by blast
  moreover from a have "includes_str (getHeader ev ''content-type'') ''multipart/form-data''"
    "formData ev = Some entries" "parseBody ev = Inr (Fields flds, pf)"
    by blast+
  ultimately show none: "pf = None"
    by (simp add: parseBody_def Let_def)
  from a have h: "handler w ev = submit w ev flds pf"
    by (intro handler_parsed) blast+
  {
    assume e: "cleanText (flds ''photoUrl'') = []"
    from a none e show "handler w ev =
              Some ([], Inr (plainReply 400 ''Provide either photoFile or photoUrl.''))"
      unfolding h by (simp add: submit_def Let_def)
  }
  {
    assume b: "cleanText (flds ''photoUrl'') \<noteq> [] \<and> getCloudinaryConfig w = Inr cfg \<and>
          handler w ev = Some (cs, res)"
    with h have "submit w ev flds pf = Some (cs, res)" by simp
    from submit_calls_resolve[OF this, of cfg] a b obtain ds0 x0 rest0 where
      r0: "resolveCanonicalPhotoUrl w (cleanText (flds ''photoUrl'')) pf cfg = Some (ds0, x0)"
      and cs: "cs = ds0 @ rest0"
      by auto
    from resolve_without_file[OF r0[unfolded none]] cs
    show "\<exists>ds x rest. fetchImageFromUrl w (cleanText (flds ''photoUrl'')) = Some (ds, x) \<and>
               cs = ds @ rest"
      by auto
  }
qed

theorem empty_photoFile_ignored_witness:
  "handler (demoWorld 0 (pngResponse None (Reader twoChunks))) (demoEvent tomWithEmptyFile) =
     Some ([], Inr (plainReply 400 ''Provide either photoFile or photoUrl.''))
   \<and> handler (demoWorld 0 (pngResponse None (Reader twoChunks)))
        (demoEvent (tomByUrl @ [(''photoFile'', FormFile (pngFile []))])) =
       handler (demoWorld 0 (pngResponse None (Reader twoChunks))) (demoEvent tomByUrl)"
proof -
  let ?w = "demoWorld 0 (pngResponse None (Reader twoChunks))"
  let ?ev = "demoEvent tomWithEmptyFile"
  have m: "httpMethod ?ev = ''POST''" by (simp add: demoEvent_def)
  have t: "envSet (AIRTABLE_TOKEN (processEnv ?w))" "envSet (AIRTABLE_BASE_ID (processEnv ?w))"
    by code_simp+
  have i: "includes_str (getHeader ?ev ''content-type'') ''multipart/form-data''" by code_simp
  have f: "formData ?ev = Some tomWithEmptyFile" by (simp add: demoEvent_def)
  have z: "\<forall>f. (''photoFile'', FormFile f) \<in> set tomWithEmptyFile \<longrightarrow> fileContent f = []"
    by (simp add: tomWithEmptyFile_def pngFile_def)
  have "(case parseBody ?ev of
           Inr (Fields flds, pf) \<Rightarrow>
             \<not> truthy (flds ''website'') \<and> cleanText (flds ''catName'') \<noteq> [] \<and>
             cleanText (flds ''humanName'') \<noteq> [] \<and> cleanText (flds ''photoUrl'') = []
         | _ \<Rightarrow> False)"
    by code_simp
  then obtain flds pf where p: "parseBody ?ev = Inr (Fields flds, pf)"
    and h: "\<not> truthy (flds ''website'') \<and> cleanText (flds ''catName'') \<noteq> [] \<and>
             cleanText (flds ''humanName'') \<noteq> [] \<and> cleanText (flds ''photoUrl'') = []"
    by (rule parsedFieldsE)
  from empty_photoFile_ignored[where w = ?w and ev = ?ev and entries = tomWithEmptyFile and flds = flds and pf = pf]
    m t i f z p h
  have 1: "handler ?w ?ev = Some ([], Inr (plainReply 400 ''Provide either photoFile or photoUrl.''))"
    by blast
  have e: "demoEvent (tomByUrl @ [(''photoFile'', FormFile (pngFile []))]) =
             (demoEvent tomByUrl)\<lparr>formData := Some (tomByUrl @ [(''photoFile'', FormFile (pngFile []))])\<rparr>"
    "demoEvent tomByUrl =
       (demoEvent tomByUrl)\<lparr>formData := Some (filter (\<lambda>e. \<not> emptyFile e)
          (tomByUrl @ [(''photoFile'', FormFile (pngFile []))]))\<rparr>"
    by (simp_all add: demoEvent_def tomByUrl_def pngFile_def)
  from empty_photoFile_ignored[where w = ?w and ev = "demoEvent tomByUrl"
      and entries = "tomByUrl @ [(''photoFile'', FormFile (pngFile []))]"]
  have "handler ?w ((demoEvent tomByUrl)\<lparr>formData := Some (filter (\<lambda>e. \<not> emptyFile e)
          (tomByUrl @ [(''photoFile'', FormFile (pngFile []))]))\<rparr>) =
        handler ?w ((demoEvent tomByUrl)\<lparr>formData := Some (tomByUrl @ [(''photoFile'', FormFile (pngFile []))])\<rparr>)"
    by blast
  with e have 2: "handler ?w (demoEvent (tomByUrl @ [(''photoFile'', FormFile (pngFile []))])) =
       handler ?w (demoEvent tomByUrl)"
    by simp
  from 1 2 show ?thesis by blast
qed

end
